theory Spec2Isabelle
  imports Main "HOL-Library.Multiset"
begin

section \<open>JavaScript values shared by the modelled files\<close>

text \<open>
  A thrown JavaScript \<open>Error\<close> is a value carrying its message. Every function of the
  source that can throw returns \<open>error + 'a\<close>, with \<open>Inl\<close> the thrown error.
\<close>

datatype error = Error string

text \<open>
  \<open>Array.prototype.findIndex\<close>: the index of the first element satisfying the
  predicate, \<open>-1\<close> when there is none.
\<close>

fun findIndex :: "('a \<Rightarrow> bool) \<Rightarrow> 'a list \<Rightarrow> int" where
  "findIndex P [] = -1"
| "findIndex P (x # xs) =
     (if P x then 0 else (let i = findIndex P xs in if i < 0 then -1 else i + 1))"

text \<open>
  Reading \<open>xs[i]\<close> of a JavaScript array with an integral number \<open>i\<close>: the element when
  \<open>0 \<le> i < xs.length\<close>, otherwise \<open>undefined\<close> (here \<open>None\<close>); no exception is raised.
\<close>

definition array_get :: "'a list \<Rightarrow> int \<Rightarrow> 'a option" where
  "array_get xs i = (if 0 \<le> i \<and> i < int (length xs) then Some (xs ! nat i) else None)"

section \<open>src/view/viewExplorer.ts: the locator\<close>

text \<open>
  Of every source the locator reads \<open>source.view.startLineIndex\<close>,
  \<open>source.view.endLineIndex\<close> and \<open>source.view.flattenedNodes\<close>. The node type is a
  parameter (\<open>BaseTreeNode\<close> is declared outside the modelled files).
\<close>

record 'n SourceView =
  startLineIndex :: int
  endLineIndex :: int
  flattenedNodes :: "'n list"

record 'n ViewExplorer =
  currentLineIndex :: int
  sources :: "'n SourceView list"

text \<open>
  \<open>refreshLineIndex\<close>: \<open>win\<close> is the explorer window's cursor \<open>[row, column]\<close> when the
  window exists, \<open>None\<close> when \<open>this.explorer.win\<close> is undefined (the index is then kept).
\<close>

definition refreshLineIndex :: "(int \<times> int) option \<Rightarrow> 'n ViewExplorer \<Rightarrow> 'n ViewExplorer" where
  "refreshLineIndex win v =
     (case win of
        None \<Rightarrow> v
      | Some cursor \<Rightarrow> v\<lparr>currentLineIndex := fst cursor - 1\<rparr>)"

definition inRange :: "int \<Rightarrow> 'n SourceView \<Rightarrow> bool" where
  "inRange lineIndex source \<longleftrightarrow>
     lineIndex \<ge> startLineIndex source \<and> lineIndex < endLineIndex source"

definition currentSourceIndex :: "'n ViewExplorer \<Rightarrow> int" where
  "currentSourceIndex v =
     (let lineIndex = currentLineIndex v in findIndex (inRange lineIndex) (sources v))"

definition currentSource :: "'n ViewExplorer \<Rightarrow> 'n SourceView option" where
  "currentSource v = array_get (sources v) (currentSourceIndex v)"

definition currentNode :: "'n ViewExplorer \<Rightarrow> 'n option" where
  "currentNode v =
     (case currentSource v of
        None \<Rightarrow> None
      | Some source \<Rightarrow>
          (let nodeIndex = currentLineIndex v - startLineIndex source
           in array_get (flattenedNodes source) nodeIndex))"

section \<open>src/source/sources/file/file-source.ts: data\<close>

text \<open>
  \<open>fs.Stats\<close> is Node's; the source reads \<open>stat.isDirectory()\<close> and keeps the rest as an
  opaque snapshot for the display columns.
\<close>

record Stats =
  isDirectory :: bool
  mtimeMs :: int

text \<open>
  \<open>FileItem\<close>, field by field. \<open>children\<close> has three states: \<open>None\<close> is "not loaded",
  \<open>Some []\<close> is "loaded, empty". \<open>parent\<close> is a non-owning back-reference in the source;
  here it is the parent item as it was when the child was created (the modelled code reads
  \<open>parent.fullpath\<close> and \<open>parent.level\<close> only, which never change).
\<close>

datatype FileItem = FileItem
  (uid: string)
  (name: string)
  (level: int)
  (fullpath: string)
  (directory: bool)
  (readonly: bool)
  (executable: bool)
  (readable: bool)
  (writable: bool)
  (hidden: bool)
  (stat: Stats)
  (isFirstInLevel: bool)
  (isLastInLevel: bool)
  (parent: "FileItem option")
  (children: "FileItem list option")

text \<open>Assignments to the three fields the source writes after construction.\<close>

fun set_isFirstInLevel :: "bool \<Rightarrow> FileItem \<Rightarrow> FileItem" where
  "set_isFirstInLevel b (FileItem u n l f d ro ex re wr h st fi la p c) =
     FileItem u n l f d ro ex re wr h st b la p c"

fun set_isLastInLevel :: "bool \<Rightarrow> FileItem \<Rightarrow> FileItem" where
  "set_isLastInLevel b (FileItem u n l f d ro ex re wr h st fi la p c) =
     FileItem u n l f d ro ex re wr h st fi b p c"

fun set_children :: "FileItem list option \<Rightarrow> FileItem \<Rightarrow> FileItem" where
  "set_children cs (FileItem u n l f d ro ex re wr h st fi la p c) =
     FileItem u n l f d ro ex re wr h st fi la p cs"

text \<open>
  \<open>expandStore\<close>: \<open>record\<close> is a dictionary from paths to booleans;
  \<open>isExpanded\<close> is \<open>this.record[path] || false\<close>.
\<close>

type_synonym expand_record = "string \<rightharpoonup> bool"

definition expand :: "string \<Rightarrow> expand_record \<Rightarrow> expand_record" where
  "expand path rec = rec(path \<mapsto> True)"

definition shrink :: "string \<Rightarrow> expand_record \<Rightarrow> expand_record" where
  "shrink path rec = rec(path \<mapsto> False)"

definition isExpanded :: "expand_record \<Rightarrow> string \<Rightarrow> bool" where
  "isExpanded rec path = (case rec path of None \<Rightarrow> False | Some b \<Rightarrow> b)"

subsection \<open>The collaborators outside the modelled files\<close>

text \<open>
  The file-system mutations an action issues and the calls into the base class
  \<open>ExplorerSource\<close> (declared in \<open>source.ts\<close>) are recorded, in order, as values of
  \<open>call\<close>: \<open>Reload\<close> is \<open>this.reload(null)\<close>, \<open>Reveal p\<close> is \<open>revealItemByPath(p)\<close> followed
  by \<open>gotoItem\<close> of the item found.
\<close>

datatype call =
    FsMkdir string
  | FsTouch string
  | CopyFileOrDirectory string string
  | FsRename string string
  | Reload
  | Reveal string

text \<open>
  The results of reading the file system below one directory entry: what \<open>fsStat\<close>, the
  three \<open>fsAccess\<close> probes (\<open>X_OK\<close>, \<open>W_OK\<close>, \<open>R_OK\<close>) and \<open>fsReaddir\<close> give for the entry's
  path, each of which may throw; a listing pairs every name with the entry of that name.
\<close>

datatype FsEntry = FsEntry
  (fsStat: "error + Stats")
  (fsAccessX: "error + bool")
  (fsAccessW: "error + bool")
  (fsAccessR: "error + bool")
  (fsReaddir: "error + (string \<times> FsEntry) list")

text \<open>
  \<open>Env\<close> collects what the environment answers: Node's \<open>path.join\<close> and \<open>path.dirname\<close>,
  \<open>String.prototype.localeCompare\<close>, \<open>fsExists\<close> on the file system as the action finds it,
  the directory entry found at a path, and for every recorded call the error it throws, if any.
\<close>

record Env =
  pathJoin :: "string \<Rightarrow> string \<Rightarrow> string"
  pathDirname :: "string \<Rightarrow> string"
  localeCompare :: "string \<Rightarrow> string \<Rightarrow> int"
  fsExists :: "string \<Rightarrow> bool"
  fsEntryAt :: "string \<Rightarrow> FsEntry"
  raises :: "call \<Rightarrow> error option"

text \<open>
  The state of a \<open>FileSource\<close>. \<open>copyItems\<close> and \<open>cutItems\<close> are JavaScript \<open>Set\<close>s, kept
  as lists in insertion order. \<open>expandStore\<close> is the module-level store; \<open>calls\<close> is the
  record of calls issued so far and \<open>logged\<close> the errors passed to \<open>onError\<close>.
\<close>

record FileSource =
  root :: string
  showHiddenFiles :: bool
  copyItems :: "FileItem list"
  cutItems :: "FileItem list"
  items :: "FileItem list"
  expandStore :: expand_record
  calls :: "call list"
  logged :: "error list"

type_synonym 'a action = "FileSource \<times> (error + 'a)"

text \<open>Issue one call: it is recorded, and it throws what the environment says.\<close>

definition issue :: "Env \<Rightarrow> call \<Rightarrow> FileSource \<Rightarrow> unit action" where
  "issue env c s =
     (s\<lparr>calls := calls s @ [c]\<rparr>, case raises env c of Some e \<Rightarrow> Inl e | None \<Rightarrow> Inr ())"

text \<open>Sequencing of awaited steps: a thrown error ends the action.\<close>

definition and_then ::
  "'s \<times> (error + unit) \<Rightarrow> ('s \<Rightarrow> 's \<times> (error + unit)) \<Rightarrow> 's \<times> (error + unit)" where
  "and_then r f = (case snd r of Inl e \<Rightarrow> r | Inr u \<Rightarrow> f (fst r))"

text \<open>
  \<open>Promise.all\<close> over callbacks that were all started: it rejects with the first
  rejection (taken in array order) and otherwise resolves with all results.
\<close>

fun promise_all :: "(error + 'a) list \<Rightarrow> error + 'a list" where
  "promise_all [] = Inr []"
| "promise_all (Inl e # rs) = Inl e"
| "promise_all (Inr x # rs) = (case promise_all rs of Inl e \<Rightarrow> Inl e | Inr xs \<Rightarrow> Inr (x # xs))"

subsection \<open>The conflict guard and the actions that use it\<close>

definition guardTargetPath :: "Env \<Rightarrow> string \<Rightarrow> error + unit" where
  "guardTargetPath env path =
     (if fsExists env path
      then Inl (Error (''Target file or directory '' @ path @ '' already exists''))
      else Inr ())"

definition getPutTargetDir :: "FileSource \<Rightarrow> FileItem option \<Rightarrow> string" where
  "getPutTargetDir s item =
     (case item of
        None \<Rightarrow> root s
      | Some it \<Rightarrow>
          if directory it \<and> isExpanded (expandStore s) (fullpath it) then fullpath it
          else (case parent it of Some p \<Rightarrow> fullpath p | None \<Rightarrow> root s))"

text \<open>
  \<open>checkSameFilename\<close> inside \<open>pasteFile\<close>: it starts the guard of every item, hands a
  rejection of the \<open>Promise.all\<close> to \<open>onError\<close> through \<open>.catch\<close>, and returns nothing (its
  body has no \<open>return\<close>), so the caller's \<open>await\<close> never sees the outcome of the guards.
\<close>

definition checkSameFilename :: "Env \<Rightarrow> string \<Rightarrow> FileItem list \<Rightarrow> FileSource \<Rightarrow> FileSource" where
  "checkSameFilename env targetDir its s =
     (case promise_all (map (\<lambda>item. guardTargetPath env (pathJoin env targetDir (name item))) its) of
        Inl e \<Rightarrow> s\<lparr>logged := logged s @ [e]\<rparr>
      | Inr us \<Rightarrow> s)"

text \<open>
  \<open>Promise.all(items.map(async item => await op(item)))\<close>: every operation is issued, and
  the action goes on only if none threw.
\<close>

definition issue_all :: "Env \<Rightarrow> call list \<Rightarrow> FileSource \<Rightarrow> unit action" where
  "issue_all env cs s =
     (s\<lparr>calls := calls s @ cs\<rparr>,
      case promise_all (map (\<lambda>c. case raises env c of Some e \<Rightarrow> Inl e | None \<Rightarrow> Inr ()) cs) of
        Inl e \<Rightarrow> Inl e
      | Inr us \<Rightarrow> Inr ())"

definition pasteFile :: "Env \<Rightarrow> FileItem \<Rightarrow> FileSource \<Rightarrow> unit action" where
  "pasteFile env item s =
     (let targetDir = getPutTargetDir s (Some item) in
      if length (copyItems s) > 0 then
        (let s1 = checkSameFilename env targetDir (copyItems s) s in
         and_then
           (issue_all env
              (map (\<lambda>item. CopyFileOrDirectory (fullpath item) (pathJoin env targetDir (name item)))
                 (copyItems s1)) s1)
           (\<lambda>s2. issue env Reload (s2\<lparr>copyItems := []\<rparr>)))
      else if length (cutItems s) > 0 then
        (let s1 = checkSameFilename env targetDir (cutItems s) s in
         and_then
           (issue_all env
              (map (\<lambda>item. FsRename (fullpath item) (pathJoin env targetDir (name item)))
                 (cutItems s1)) s1)
           (\<lambda>s2. issue env Reload (s2\<lparr>cutItems := []\<rparr>)))
      else (s, Inr ()))"

text \<open>
  \<open>addFile\<close>: \<open>filename\<close> is the answer to the \<open>input\<close> prompt, \<open>its\<close> the handler's
  \<open>items\<close> argument (\<open>null\<close> or an array). \<open>items ? items[0] : null\<close> of an empty array is
  \<open>undefined\<close>, on which \<open>getPutTargetDir\<close> throws a \<open>TypeError\<close>.
\<close>

definition firstItem :: "FileItem list option \<Rightarrow> error + FileItem option" where
  "firstItem its =
     (case its of
        None \<Rightarrow> Inr None
      | Some [] \<Rightarrow> Inl (Error ''TypeError: Cannot read property directory of undefined'')
      | Some (it # rest) \<Rightarrow> Inr (Some it))"

definition addFile :: "Env \<Rightarrow> string \<Rightarrow> FileItem list option \<Rightarrow> FileSource \<Rightarrow> unit action" where
  "addFile env filename its s =
     (if length filename = 0 then (s, Inr ())
      else
        case firstItem its of
          Inl e \<Rightarrow> (s, Inl e)
        | Inr item \<Rightarrow>
            (let targetPath = pathJoin env (getPutTargetDir s item) filename in
             case guardTargetPath env targetPath of
               Inl e \<Rightarrow> (s, Inl e)
             | Inr u \<Rightarrow>
                 and_then (issue env (FsMkdir (pathDirname env targetPath)) s) (\<lambda>s.
                 and_then (issue env (FsTouch targetPath) s) (\<lambda>s.
                 and_then (issue env Reload s) (\<lambda>s.
                 issue env (Reveal targetPath) s)))))"

subsection \<open>Sorting and listing\<close>

text \<open>
  \<open>Array.prototype.sort\<close> with a comparator is stable (ECMAScript 2019): it is modelled
  by insertion from the right, which puts an element before the first element it does
  not compare greater than, so elements comparing equal keep their order.
\<close>

fun insort_cmp :: "('a \<Rightarrow> 'a \<Rightarrow> int) \<Rightarrow> 'a \<Rightarrow> 'a list \<Rightarrow> 'a list" where
  "insort_cmp cmp x [] = [x]"
| "insort_cmp cmp x (y # ys) = (if cmp x y \<le> 0 then x # y # ys else y # insort_cmp cmp x ys)"

definition array_sort :: "('a \<Rightarrow> 'a \<Rightarrow> int) \<Rightarrow> 'a list \<Rightarrow> 'a list" where
  "array_sort cmp xs = foldr (insort_cmp cmp) xs []"

definition compareFiles :: "Env \<Rightarrow> FileItem \<Rightarrow> FileItem \<Rightarrow> int" where
  "compareFiles env a b =
     (if directory a \<and> \<not> directory b then -1
      else if directory b \<and> \<not> directory a then 1
      else localeCompare env (name a) (name b))"

definition sortFiles :: "Env \<Rightarrow> FileItem list \<Rightarrow> FileItem list" where
  "sortFiles env files = array_sort (compareFiles env) files"

definition startsWith :: "string \<Rightarrow> string \<Rightarrow> bool" where
  "startsWith s p \<longleftrightarrow> take (length p) s = p"

text \<open>
  \<open>listFiles\<close>. \<open>dir\<close> is the file-system entry found at \<open>path\<close>. \<open>loadEntry\<close> is the
  callback mapped over the listing, a \<open>try\<close> block around the retrieval of one entry's
  metadata: it gives the item, or \<open>null\<close> (\<open>None\<close>) after handing the caught error to
  \<open>onError\<close>, together with the errors handed to \<open>onError\<close> on the way. A failing
  \<open>fsReaddir\<close> of \<open>path\<close> itself is outside every \<open>try\<close> and is thrown to the caller. The
  callbacks run interleaved; the errors are kept in the order of the listing. The \<open>parent\<close>
  of a child is the item before its children are assigned.
\<close>

function listFiles ::
  "Env \<Rightarrow> expand_record \<Rightarrow> string \<Rightarrow> FileItem option \<Rightarrow> FsEntry
     \<Rightarrow> error + (FileItem list \<times> error list)"
  and loadEntry ::
  "Env \<Rightarrow> expand_record \<Rightarrow> string \<Rightarrow> FileItem option \<Rightarrow> string \<Rightarrow> FsEntry
     \<Rightarrow> FileItem option \<times> error list" where
  "listFiles env store path par dir =
     (case fsReaddir dir of
        Inl e \<Rightarrow> Inl e
      | Inr files \<Rightarrow>
          (let results = map (\<lambda>(fname, entry). loadEntry env store path par fname entry) files
           in Inr (sortFiles env (List.map_filter fst results), concat (map snd results))))"
| "loadEntry env store path par fname entry =
     (let fpath = pathJoin env path fname in
      case fsStat entry of Inl e \<Rightarrow> (None, [e]) | Inr st \<Rightarrow>
      case fsAccessX entry of Inl e \<Rightarrow> (None, [e]) | Inr ex \<Rightarrow>
      case fsAccessW entry of Inl e \<Rightarrow> (None, [e]) | Inr wr \<Rightarrow>
      case fsAccessR entry of Inl e \<Rightarrow> (None, [e]) | Inr re \<Rightarrow>
        (let item = FileItem (''file'' @ ''-'' @ fpath) fname
                      (case par of Some p \<Rightarrow> level p + 1 | None \<Rightarrow> 1)
                      fpath (isDirectory st) (\<not> wr \<and> re) ex re wr
                      (startsWith fname ''.'') st False False par None
         in if isExpanded store (fullpath item) then
              (case listFiles env store (fullpath item) (Some item) entry of
                 Inl e \<Rightarrow> (None, [e])
               | Inr (cs, log) \<Rightarrow> (Some (set_children (Some cs) item), log))
            else (Some item, [])))"
  by pat_completeness auto
termination
proof (relation "measure (\<lambda>x. case x of
          Inl (env, store, path, par, dir) \<Rightarrow> 2 * size dir + 1
        | Inr (env, store, path, par, fname, entry) \<Rightarrow> 2 * size entry + 2)", goal_cases)
  case 1
  show ?case by simp
next
  case (2 env store path par dir files z fname entry)
  have "size entry < size dir"
  proof (cases dir)
    case (FsEntry a b c d e)
    with 2(1) have e: "e = Inr files" by simp
    from 2(2,3) have "(fname, entry) \<in> set files" by simp
    then have "size entry \<le> size_list (size_prod (\<lambda>x. 0) size) files"
      by (induction files) auto
    with FsEntry e show ?thesis by simp
  qed
  then show ?case by simp
next
  case 3
  then show ?case by simp
qed

declare listFiles.simps [simp del] loadEntry.simps [simp del]

definition loadItems :: "Env \<Rightarrow> FileItem option \<Rightarrow> FileSource \<Rightarrow> FileSource \<times> (error + FileItem list)" where
  "loadItems env sourceItem s =
     (let s1 = s\<lparr>copyItems := []\<rparr>;
          s2 = s1\<lparr>cutItems := []\<rparr>
      in if isExpanded (expandStore s2) (root s2) then
           (case listFiles env (expandStore s2) (root s2) None (fsEntryAt env (root s2)) of
              Inl e \<Rightarrow> (s2, Inl e)
            | Inr (its, log) \<Rightarrow> (s2\<lparr>logged := logged s2 @ log\<rparr>, Inr its))
         else (s2, Inr []))"

subsection \<open>Drawing\<close>

text \<open>
  \<open>drawSubDirectory\<close> first clears both flags of every item of the sibling list, then takes
  \<open>filteredItems\<close> and sets \<open>isFirstInLevel\<close> on its first and \<open>isLastInLevel\<close> on its last
  element. The elements of \<open>filteredItems\<close> are the objects of \<open>items\<close> themselves, so the
  two assignments are updates of \<open>items\<close> at the positions \<open>filteredIndexes\<close> gives.
\<close>

definition filteredIndexes :: "bool \<Rightarrow> FileItem list \<Rightarrow> nat list" where
  "filteredIndexes showHidden its =
     (if showHidden then [0..<length its]
      else filter (\<lambda>i. \<not> hidden (its ! i)) [0..<length its])"

definition markLevel :: "bool \<Rightarrow> FileItem list \<Rightarrow> FileItem list" where
  "markLevel showHidden its =
     (let its1 = map (\<lambda>item. set_isLastInLevel False (set_isFirstInLevel False item)) its;
          idx = filteredIndexes showHidden its1
      in if length idx > 0 then
           (let its2 = its1[idx ! 0 := set_isFirstInLevel True (its1 ! (idx ! 0))]
            in its2[idx ! (length idx - 1) :=
                      set_isLastInLevel True (its2 ! (idx ! (length idx - 1)))])
         else its1)"

text \<open>
  The loop over \<open>filteredItems\<close> visits the items of the sibling list that pass the filter,
  in order. For each it adds a row (\<open>builder.newItem\<close>) and, when the item is expanded in the
  store and has loaded children, draws the children. The result is the sibling list as the
  pass leaves it and the rows added, in order.
\<close>

function drawSubDirectory ::
  "bool \<Rightarrow> expand_record \<Rightarrow> FileItem list \<Rightarrow> FileItem list \<times> FileItem list" where
  "drawSubDirectory showHidden store its =
     (let drawn =
        map (\<lambda>item.
          if showHidden \<or> \<not> hidden item then
            (if isExpanded store (fullpath item) then
               (case children item of
                  Some cs \<Rightarrow>
                    (let (cs', rows) = drawSubDirectory showHidden store cs
                     in (set_children (Some cs') item, item # rows))
                | None \<Rightarrow> (item, [item]))
             else (item, [item]))
          else (item, [])) (markLevel showHidden its)
      in (map fst drawn, concat (map snd drawn)))"
  by pat_completeness auto
termination
proof (relation "measure (\<lambda>(showHidden, store, its). size_list size its)", goal_cases)
  case 1
  show ?case by simp
next
  case (2 showHidden store its item cs)
  have ch: "children (set_isFirstInLevel b x) = children x"
    "children (set_isLastInLevel b x) = children x" for b x
    by (cases x; simp)+
  define from_its where
    "from_its xs \<longleftrightarrow> (\<forall>x \<in> set xs. \<exists>orig \<in> set its. children x = children orig)" for xs
  have upd: "from_its (xs[k := v])"
    if "from_its xs" and "k < length xs \<Longrightarrow> children v = children (xs ! k)" for xs k v
    unfolding from_its_def
  proof
    fix x assume "x \<in> set (xs[k := v])"
    show "\<exists>orig \<in> set its. children x = children orig"
    proof (cases "k < length xs")
      case True
      from \<open>x \<in> set (xs[k := v])\<close> have "x = v \<or> x \<in> set xs"
        using set_update_subset_insert [of xs k v] by auto
      with True that show ?thesis by (auto simp: from_its_def)
    next
      case False
      then have "xs[k := v] = xs" by (simp add: list_update_beyond not_less)
      with \<open>x \<in> set (xs[k := v])\<close> that(1) show ?thesis by (simp add: from_its_def)
    qed
  qed
  have "from_its (map (\<lambda>item. set_isLastInLevel False (set_isFirstInLevel False item)) its)"
    by (auto simp: from_its_def ch)
  then have "from_its (markLevel showHidden its)"
    by (auto simp: markLevel_def Let_def ch intro!: upd)
  with 2(1) have "\<exists>orig \<in> set its. children item = children orig"
    unfolding from_its_def by blast
  then obtain orig where orig: "orig \<in> set its" "children orig = Some cs"
    using 2(4) by auto
  have "size_list size cs < size orig" using orig(2) by (cases orig) auto
  also have "size orig \<le> size_list size its" using orig(1) by (simp add: size_list_estimation')
  finally show ?case by simp
qed

declare drawSubDirectory.simps [simp del]

datatype row = RootRow bool bool string | ItemRow FileItem

definition draw :: "FileSource \<Rightarrow> FileSource \<times> row list" where
  "draw s =
     (let rootExpanded = isExpanded (expandStore s) (root s);
          rootRow = RootRow rootExpanded (showHiddenFiles s) (root s)
      in if rootExpanded then
           (let (its, rows) = drawSubDirectory (showHiddenFiles s) (expandStore s) (items s)
            in (s\<lparr>items := its\<rparr>, rootRow # map ItemRow rows))
         else (s, [rootRow]))"

section \<open>src/unnamed/part_000: the file actions of loadFileActions\<close>

text \<open>
  The actions work on \<open>file = action.owner\<close>, a \<open>FileSource\<close> whose class (and the node
  type \<open>FileNode\<close>) is declared in \<open>fileSource.ts\<close>, outside the modelled files: the node
  type is a parameter, and of the owner the model keeps what the actions read and write.
  \<open>copiedNodes\<close> and \<open>cutNodes\<close> are JavaScript \<open>Set\<close>s of node references, kept as
  duplicate-free lists in insertion order.
\<close>

definition set_has :: "'a list \<Rightarrow> 'a \<Rightarrow> bool" where
  "set_has xs x \<longleftrightarrow> x \<in> set xs"

definition set_add :: "'a \<Rightarrow> 'a list \<Rightarrow> 'a list" where
  "set_add x xs = (if x \<in> set xs then xs else xs @ [x])"

definition set_delete :: "'a \<Rightarrow> 'a list \<Rightarrow> 'a list" where
  "set_delete x xs = filter (\<lambda>y. y \<noteq> x) xs"

text \<open>
  The calls the actions make into collaborators, recorded in order:
  \<open>file.view.requestRenderNodes\<close>, \<open>window.showMessage\<close>, \<open>overwritePrompt\<close> with its
  operation name, its \<open>(source, target)\<close> pairs and the function it is to apply
  (\<open>fsCopyFileRecursive\<close>, \<open>fsRename\<close>, or the callback of \<open>addFile\<close> that calls
  \<open>fsTouch\<close> on the target), \<open>file.load(file.view.rootNode)\<close>, \<open>action.doAction\<close> with
  the action's name, node and arguments, and the \<open>file.view.sync\<close> block of \<open>addFile\<close>
  that reloads a node and reveals a path below it.
\<close>

datatype applyFn = FsCopyFileRecursive | FsRenameFn | FsTouchFn

datatype 'n effect =
    RequestRenderNodes "'n list"
  | ShowMessage string string
  | OverwritePrompt string "(string option \<times> string) list" applyFn
  | Load
  | DoAction string 'n "string list"
  | ViewSync 'n string

record 'n FileOwner =
  copiedNodes :: "'n list"
  cutNodes :: "'n list"
  effects :: "'n effect list"

text \<open>
  What the collaborators answer: \<open>node.fullpath\<close>, \<open>node.parent\<close>,
  \<open>file.getPutTargetDir(node)\<close>, \<open>file.getPutTargetNode(node)\<close>, \<open>path.join\<close>,
  \<open>path.basename\<close>, and the error an awaited call throws, if any. \<open>pathExists\<close> says
  which paths exist when an action starts; no action of this file reads it (what exists is
  for \<open>overwritePrompt\<close> to look at).
\<close>

record 'n Collaborators =
  nodeFullpath :: "'n \<Rightarrow> string"
  nodeParent :: "'n \<Rightarrow> 'n option"
  putTargetDir :: "'n \<Rightarrow> string"
  putTargetNode :: "'n \<Rightarrow> 'n"
  joinPath :: "string \<Rightarrow> string \<Rightarrow> string"
  basename :: "string \<Rightarrow> string"
  pathExists :: "string \<Rightarrow> bool"
  throws :: "'n effect \<Rightarrow> error option"

definition requestRenderNodes :: "'n list \<Rightarrow> 'n FileOwner \<Rightarrow> 'n FileOwner" where
  "requestRenderNodes nodes file = file\<lparr>effects := effects file @ [RequestRenderNodes nodes]\<rparr>"

definition awaited :: "'n Collaborators \<Rightarrow> 'n effect \<Rightarrow> 'n FileOwner \<Rightarrow> 'n FileOwner \<times> (error + unit)" where
  "awaited col e file =
     (file\<lparr>effects := effects file @ [e]\<rparr>,
      case throws col e of Some err \<Rightarrow> Inl err | None \<Rightarrow> Inr ())"

text \<open>\<open>args[0] ?? 'toggle'\<close>, the type of a \<open>copyFile\<close> or \<open>cutFile\<close>.\<close>

definition copyOrCutFileType :: "string list \<Rightarrow> string" where
  "copyOrCutFileType args = (case args of [] \<Rightarrow> ''toggle'' | a # rest \<Rightarrow> a)"

text \<open>The two loops over \<open>nodes\<close>: toggling membership, and adding.\<close>

definition toggleNodes :: "'n list \<Rightarrow> 'n list \<Rightarrow> 'n list" where
  "toggleNodes nodes marked =
     foldl (\<lambda>m node. if set_has m node then set_delete node m else set_add node m) marked nodes"

definition addNodes :: "'n list \<Rightarrow> 'n list \<Rightarrow> 'n list" where
  "addNodes nodes marked = foldl (\<lambda>m node. set_add node m) marked nodes"

definition copyFile :: "'n list \<Rightarrow> string list \<Rightarrow> 'n FileOwner \<Rightarrow> 'n FileOwner" where
  "copyFile nodes args file =
     (let type = copyOrCutFileType args;
          file1 =
            (if type = ''replace'' then
               (let f1 = requestRenderNodes (copiedNodes file @ cutNodes file) file;
                    f2 = f1\<lparr>copiedNodes := []\<rparr>;
                    f3 = f2\<lparr>cutNodes := []\<rparr>
                in f3\<lparr>copiedNodes := addNodes nodes (copiedNodes f3)\<rparr>)
             else if type = ''toggle'' then
               file\<lparr>copiedNodes := toggleNodes nodes (copiedNodes file)\<rparr>
             else if type = ''append'' then
               file\<lparr>copiedNodes := addNodes nodes (copiedNodes file)\<rparr>
             else file)
      in requestRenderNodes nodes file1)"

definition cutFile :: "'n list \<Rightarrow> string list \<Rightarrow> 'n FileOwner \<Rightarrow> 'n FileOwner" where
  "cutFile nodes args file =
     (let type = copyOrCutFileType args;
          file1 =
            (if type = ''replace'' then
               (let f1 = requestRenderNodes (copiedNodes file @ cutNodes file) file;
                    f2 = f1\<lparr>copiedNodes := []\<rparr>;
                    f3 = f2\<lparr>cutNodes := []\<rparr>
                in f3\<lparr>cutNodes := addNodes nodes (cutNodes f3)\<rparr>)
             else if type = ''toggle'' then
               file\<lparr>cutNodes := toggleNodes nodes (cutNodes file)\<rparr>
             else if type = ''append'' then
               file\<lparr>cutNodes := addNodes nodes (cutNodes file)\<rparr>
             else file)
      in requestRenderNodes nodes file1)"

text \<open>
  \<open>args[0] ?? 'keepCopy'\<close>, the type of a \<open>pasteFile\<close>. (The description of the
  argument in \<open>pasteFileOptions\<close>, in the same file, ends "default: clear".)
\<close>

definition pasteFileType :: "string list \<Rightarrow> string" where
  "pasteFileType args = (case args of [] \<Rightarrow> ''keepCopy'' | a # rest \<Rightarrow> a)"

definition pastePairs :: "'n Collaborators \<Rightarrow> string \<Rightarrow> 'n list \<Rightarrow> (string option \<times> string) list" where
  "pastePairs col targetDir nodes =
     map (\<lambda>node. (Some (nodeFullpath col node),
                   joinPath col targetDir (basename col (nodeFullpath col node)))) nodes"

text \<open>
  \<open>pasteFile\<close> of this file (the name \<open>pasteFile\<close> is taken by the action of
  \<open>file-source.ts\<close> above).
\<close>

definition pasteFile_part000 ::
  "'n Collaborators \<Rightarrow> 'n \<Rightarrow> string list \<Rightarrow> 'n FileOwner \<Rightarrow> 'n FileOwner \<times> (error + unit)" where
  "pasteFile_part000 col node args file =
     (let type = pasteFileType args in
      if length (copiedNodes file) \<le> 0 \<and> length (cutNodes file) \<le> 0 then
        (file\<lparr>effects := effects file
                  @ [ShowMessage ''Copied files or cut files is empty'' ''error'']\<rparr>, Inr ())
      else
        (let targetDir = putTargetDir col node in
         and_then
           (if length (copiedNodes file) > 0 then
              (let nodes = copiedNodes file in
               and_then
                 (awaited col (OverwritePrompt ''paste'' (pastePairs col targetDir nodes)
                                 FsCopyFileRecursive) file)
                 (\<lambda>file.
                    (let file1 = requestRenderNodes nodes file
                     in (if type = ''clear'' then file1\<lparr>copiedNodes := []\<rparr> else file1,
                         Inr ()))))
            else (file, Inr ()))
           (\<lambda>file.
              and_then
                (if length (cutNodes file) > 0 then
                   (let nodes = cutNodes file in
                    and_then
                      (awaited col (OverwritePrompt ''paste'' (pastePairs col targetDir nodes)
                                      FsRenameFn) file)
                      (\<lambda>file. (file\<lparr>cutNodes := []\<rparr>, Inr ())))
                 else (file, Inr ()))
                (\<lambda>file. awaited col Load file))))"

text \<open>
  \<open>String.prototype.trim\<close>, on the white space and line terminators of ASCII, and
  \<open>targetPath.replace(/(\/|\\)$/, '')\<close>, which removes one final slash or backslash.
\<close>

definition isWhiteSpace :: "char \<Rightarrow> bool" where
  "isWhiteSpace c \<longleftrightarrow> c \<in> set [CHR 0x20, CHR 0x09, CHR 0x0A, CHR 0x0B, CHR 0x0C, CHR 0x0D]"

definition trim :: "string \<Rightarrow> string" where
  "trim s = rev (dropWhile isWhiteSpace (rev (dropWhile isWhiteSpace s)))"

definition isSeparator :: "char \<Rightarrow> bool" where
  "isSeparator c \<longleftrightarrow> c = CHR ''/'' \<or> c = CHR 0x5C"

definition stripFinalSeparator :: "string \<Rightarrow> string" where
  "stripFinalSeparator p = (if p \<noteq> [] \<and> isSeparator (last p) then butlast p else p)"

text \<open>
  The file name \<open>addFile\<close> works with: \<open>args[0]\<close> when it is truthy (a non-empty string),
  else the answer of the \<open>input\<close> prompt (\<open>None\<close> when that is \<open>undefined\<close>), trimmed
  (\<open>filename?.trim()\<close>).
\<close>

definition addFileName :: "string list \<Rightarrow> string option \<Rightarrow> string option" where
  "addFileName args answer =
     map_option trim
       (case args of
          [] \<Rightarrow> answer
        | a # rest \<Rightarrow> if a \<noteq> [] then Some a else answer)"

text \<open>
  \<open>addFile\<close> of this file (the name \<open>addFile\<close> is taken by the action of
  \<open>file-source.ts\<close> above). It returns on an empty name, delegates a name that ends in a
  separator to \<open>addDirectory\<close>, and otherwise awaits \<open>overwritePrompt\<close> on the one pair
  \<open>(undefined, targetPath)\<close> and then the \<open>sync\<close> block. It has no \<open>throw\<close> of its own.
\<close>

definition addFile_part000 ::
  "'n Collaborators \<Rightarrow> 'n \<Rightarrow> string list \<Rightarrow> string option \<Rightarrow> 'n FileOwner
     \<Rightarrow> 'n FileOwner \<times> (error + unit)" where
  "addFile_part000 col node args answer file =
     (case addFileName args answer of
        None \<Rightarrow> (file, Inr ())
      | Some filename \<Rightarrow>
          if filename = [] then (file, Inr ())
          else if isSeparator (last filename) then
            awaited col (DoAction ''addDirectory'' node [filename]) file
          else
            (let targetNode = putTargetNode col node;
                 targetPath = joinPath col (nodeFullpath col targetNode) filename
             in and_then
                  (awaited col (OverwritePrompt ''add file'' [(None, targetPath)] FsTouchFn) file)
                  (\<lambda>file.
                     (let loadNode = (case nodeParent col targetNode of
                                        Some p \<Rightarrow> p | None \<Rightarrow> targetNode)
                      in awaited col (ViewSync loadNode (stripFinalSeparator targetPath)) file))))"

section \<open>src/util/throttle-debounce.ts: debounce\<close>

text \<open>
  Time is the millisecond clock of the event loop, a natural number. A promise is named
  by the number of the call that created it; it is settled once, and settling it again
  does nothing. The wrapped \<open>fn\<close> is taken to complete in the turn in which it is called
  (a synchronous \<open>fn\<close>, or one whose promise is already settled), with a result or a thrown
  error.
\<close>

datatype 'r settlement = Resolved "'r option" | Rejected error

text \<open>
  The state of one debounced function: the closure variables \<open>timer\<close> (the handle of the
  timeout set last; the source never resets it) and \<open>lastResolve\<close> (the promise whose
  \<open>resolve\<close> it holds); the timeouts pending in the runtime, each with handle, due time and
  the arguments and promise its callback closes over; the promises settled so far with the
  time and the outcome; the calls of \<open>fn\<close> made so far with their time; and the number of
  promises created.
\<close>

record ('a, 'r) Debounced =
  timer :: "nat option"
  lastResolve :: "nat option"
  timeouts :: "(nat \<times> nat \<times> 'a \<times> nat) list"
  settled :: "(nat \<times> nat \<times> 'r settlement) list"
  executed :: "(nat \<times> 'a) list"
  created :: nat

text \<open>The state when \<open>debounce(delay, fn)\<close> returns the wrapping function.\<close>

definition debounce :: "('a, 'r) Debounced" where
  "debounce = \<lparr>timer = None, lastResolve = None, timeouts = [], settled = [], executed = [],
                created = 0\<rparr>"

definition settle :: "nat \<Rightarrow> nat \<Rightarrow> 'r settlement \<Rightarrow> ('a, 'r) Debounced \<Rightarrow> ('a, 'r) Debounced" where
  "settle p now outcome d =
     (if p \<in> fst ` set (settled d) then d else d\<lparr>settled := settled d @ [(p, now, outcome)]\<rparr>)"

definition clearTimeout :: "nat \<Rightarrow> ('a, 'r) Debounced \<Rightarrow> ('a, 'r) Debounced" where
  "clearTimeout h d = d\<lparr>timeouts := filter (\<lambda>t. fst t \<noteq> h) (timeouts d)\<rparr>"

text \<open>
  One call of the debounced function at time \<open>now\<close>: if \<open>timer\<close> is set, the timeout is
  cleared and \<open>lastResolve!(undefined)\<close> is called (a \<open>TypeError\<close> were \<open>lastResolve\<close> null);
  then a new promise is created, its \<open>resolve\<close> stored, and a timeout set for \<open>now + delay\<close>.
  The result is the state and the promise returned to the caller.
\<close>

definition call_debounced ::
  "nat \<Rightarrow> nat \<Rightarrow> 'a \<Rightarrow> ('a, 'r) Debounced \<Rightarrow> error + (('a, 'r) Debounced \<times> nat)" where
  "call_debounced delay now args d =
     (case (case timer d of
              None \<Rightarrow> Inr d
            | Some h \<Rightarrow>
                (let d1 = clearTimeout h d in
                 case lastResolve d1 of
                   None \<Rightarrow> Inl (Error ''TypeError: lastResolve is not a function'')
                 | Some p \<Rightarrow> Inr (settle p now (Resolved None) d1))) of
        Inl e \<Rightarrow> Inl e
      | Inr d2 \<Rightarrow>
          (let p = created d2 in
           Inr (d2\<lparr>lastResolve := Some p,
                   timer := Some p,
                   timeouts := timeouts d2 @ [(p, now + delay, args, p)],
                   created := p + 1\<rparr>, p)))"

text \<open>
  The callback of a timeout, run at its due time: \<open>resolve(await fn(...args))\<close>, or
  \<open>reject(error)\<close> when \<open>fn\<close> throws.
\<close>

definition fire ::
  "('a \<Rightarrow> error + 'r) \<Rightarrow> nat \<times> nat \<times> 'a \<times> nat \<Rightarrow> ('a, 'r) Debounced \<Rightarrow> ('a, 'r) Debounced" where
  "fire fn t d =
     (case t of (h, due, args, p) \<Rightarrow>
        (let d1 = d\<lparr>executed := executed d @ [(due, args)]\<rparr> in
         case fn args of
           Inr r \<Rightarrow> settle p due (Resolved (Some r)) d1
         | Inl e \<Rightarrow> settle p due (Rejected e) d1))"

text \<open>
  The event loop up to time \<open>now\<close>: the pending timeouts that are due by then run, in the
  order they were set (a timeout due exactly at \<open>now\<close> runs before what happens at \<open>now\<close>).
\<close>

definition advance :: "('a \<Rightarrow> error + 'r) \<Rightarrow> nat \<Rightarrow> ('a, 'r) Debounced \<Rightarrow> ('a, 'r) Debounced" where
  "advance fn now d =
     foldl (\<lambda>d t. fire fn t d)
       (d\<lparr>timeouts := filter (\<lambda>t. \<not> fst (snd t) \<le> now) (timeouts d)\<rparr>)
       (filter (\<lambda>t. fst (snd t) \<le> now) (timeouts d))"

text \<open>
  A schedule of calls \<open>(time, args)\<close>, in time order, followed by enough time for every
  pending timeout to run.
\<close>

fun run_calls ::
  "nat \<Rightarrow> ('a \<Rightarrow> error + 'r) \<Rightarrow> (nat \<times> 'a) list \<Rightarrow> ('a, 'r) Debounced \<Rightarrow> error + ('a, 'r) Debounced" where
  "run_calls delay fn [] d =
     Inr (foldl (\<lambda>d t. fire fn t d) (d\<lparr>timeouts := []\<rparr>) (timeouts d))"
| "run_calls delay fn ((now, args) # rest) d =
     (case call_debounced delay now args (advance fn now d) of
        Inl e \<Rightarrow> Inl e
      | Inr (d', p) \<Rightarrow> run_calls delay fn rest d')"

section \<open>Example inputs\<close>

text \<open>Small concrete inputs on which the theorems below are instantiated.\<close>

definition example_view :: "string ViewExplorer" where
  "example_view =
     \<lparr>currentLineIndex = 0,
      sources = [\<lparr>startLineIndex = 0, endLineIndex = 2, flattenedNodes = [''a'', ''b'']\<rparr>,
                 \<lparr>startLineIndex = 2, endLineIndex = 5, flattenedNodes = [''c'', ''d'']\<rparr>]\<rparr>"

definition example_item :: "string \<Rightarrow> string \<Rightarrow> bool \<Rightarrow> FileItem" where
  "example_item dir nm isdir =
     FileItem (''file-'' @ dir @ ''/'' @ nm) nm 1 (dir @ ''/'' @ nm) isdir False False True True
       (case nm of [] \<Rightarrow> False | c # cs \<Rightarrow> c = CHR ''.'')
       \<lparr>isDirectory = isdir, mtimeMs = 0\<rparr> False False None None"

text \<open>
  An environment in which exactly the paths satisfying \<open>ex\<close> exist, no call throws, names
  are compared by length, and joining puts a slash between its arguments.
\<close>

definition example_env :: "(string \<Rightarrow> bool) \<Rightarrow> Env" where
  "example_env ex =
     \<lparr>pathJoin = (\<lambda>a b. a @ ''/'' @ b),
      pathDirname = (\<lambda>p. rev (tl (dropWhile (\<lambda>c. c \<noteq> CHR ''/'') (rev p)))),
      localeCompare = (\<lambda>a b. int (length a) - int (length b)),
      fsExists = ex,
      fsEntryAt = (\<lambda>p. FsEntry (Inl (Error ''ENOENT'')) (Inr False) (Inr False) (Inr False)
                          (Inl (Error ''ENOENT''))),
      raises = (\<lambda>c. None)\<rparr>"

definition example_source :: FileSource where
  "example_source =
     \<lparr>root = ''/r'', showHiddenFiles = False,
      copyItems = [example_item ''/src'' ''x.txt'' False], cutItems = [],
      items = [example_item ''/r'' ''x.txt'' False],
      expandStore = Map.empty(''/r'' \<mapsto> True), calls = [], logged = []\<rparr>"

definition example_entry :: "bool \<Rightarrow> (string \<times> FsEntry) list \<Rightarrow> FsEntry" where
  "example_entry isdir listing =
     FsEntry (Inr \<lparr>isDirectory = isdir, mtimeMs = 0\<rparr>) (Inr isdir) (Inr True) (Inr True)
       (if isdir then Inr listing else Inl (Error ''ENOTDIR''))"

definition example_broken :: FsEntry where
  "example_broken =
     FsEntry (Inl (Error ''EACCES'')) (Inr False) (Inr False) (Inr False) (Inl (Error ''EACCES''))"

text \<open>
  For stating what a listing keeps: the error the retrieval of an entry's metadata ends
  with (the first of \<open>fsStat\<close> and the three \<open>fsAccess\<close> probes to throw), and whether
  an entry ends up in the listing of its directory: its metadata is retrieved and, if its
  path is expanded in the store, its own directory can be read.
\<close>

definition metadataError :: "FsEntry \<Rightarrow> error option" where
  "metadataError entry =
     (case fsStat entry of Inl e \<Rightarrow> Some e | Inr st \<Rightarrow>
      case fsAccessX entry of Inl e \<Rightarrow> Some e | Inr ex \<Rightarrow>
      case fsAccessW entry of Inl e \<Rightarrow> Some e | Inr wr \<Rightarrow>
      case fsAccessR entry of Inl e \<Rightarrow> Some e | Inr re \<Rightarrow> None)"

definition entryListed :: "Env \<Rightarrow> expand_record \<Rightarrow> string \<Rightarrow> string \<times> FsEntry \<Rightarrow> bool" where
  "entryListed env store path fe \<longleftrightarrow>
     metadataError (snd fe) = None
     \<and> (if isExpanded store (pathJoin env path (fst fe)) then \<not> isl (fsReaddir (snd fe)) else True)"

text \<open>
  What ECMAScript asks of a comparator for the order of \<open>sort\<close> to be defined: swapping
  the arguments swaps the sign, and "not greater" is transitive.
\<close>

definition consistentCompare :: "('a \<Rightarrow> 'a \<Rightarrow> int) \<Rightarrow> bool" where
  "consistentCompare cmp \<longleftrightarrow>
     (\<forall>a b. (cmp b a < 0) = (0 < cmp a b))
     \<and> (\<forall>a b c. cmp a b \<le> 0 \<and> cmp b c \<le> 0 \<longrightarrow> cmp a c \<le> 0)"

definition example_files :: "FileItem list" where
  "example_files =
     [example_item ''/r'' ''bb'' False, example_item ''/r'' ''a'' False,
      example_item ''/r'' ''zzz'' True, example_item ''/r'' ''c'' False]"

text \<open>The items of a sibling list that pass the hidden-file filter.\<close>

definition shown :: "bool \<Rightarrow> FileItem \<Rightarrow> bool" where
  "shown showHidden item \<longleftrightarrow> showHidden \<or> \<not> hidden item"

definition example_siblings :: "FileItem list" where
  "example_siblings =
     [example_item ''/r'' ''.git'' True,
      set_children (Some [example_item ''/r/a'' ''.x'' False, example_item ''/r/a'' ''c.txt'' False])
        (example_item ''/r'' ''a'' True),
      example_item ''/r'' ''b.txt'' False,
      example_item ''/r'' ''.z'' False]"

text \<open>
  Collaborators for nodes named by their full path, under the root \<open>/r\<close>, where exactly
  \<open>/r/x.txt\<close> exists and no call throws.
\<close>

definition example_collaborators :: "string Collaborators" where
  "example_collaborators =
     \<lparr>nodeFullpath = (\<lambda>n. n),
      nodeParent = (\<lambda>n. None),
      putTargetDir = (\<lambda>n. ''/r''),
      putTargetNode = (\<lambda>n. ''/r''),
      joinPath = (\<lambda>a b. a @ ''/'' @ b),
      basename = (\<lambda>p. rev (takeWhile (\<lambda>c. c \<noteq> CHR ''/'') (rev p))),
      pathExists = (\<lambda>p. p = ''/r/x.txt''),
      throws = (\<lambda>e. None)\<rparr>"

definition example_owner :: "string FileOwner" where
  "example_owner = \<lparr>copiedNodes = [''/src/x.txt''], cutNodes = [''/src/y.txt''], effects = []\<rparr>"

definition example_unreadable :: FsEntry where
  "example_unreadable =
     FsEntry (Inr \<lparr>isDirectory = True, mtimeMs = 0\<rparr>) (Inr True) (Inr True) (Inr True)
       (Inl (Error ''EPERM''))"

definition example_dir_unreadable :: FsEntry where
  "example_dir_unreadable =
     example_entry True
       [(''bad'', example_broken), (''a'', example_unreadable), (''b.txt'', example_entry False [])]"

section \<open>Properties\<close>

subsection \<open>Properties of the locator\<close>

lemma findIndex_none: "(\<forall>x \<in> set xs. \<not> P x) \<Longrightarrow> findIndex P xs = -1"
  by (induction xs) simp_all

lemma findIndex_ge: "- 1 \<le> findIndex P xs"
  by (induction xs) (simp_all add: Let_def)

lemma findIndex_first:
  "i < length xs \<Longrightarrow> P (xs ! i) \<Longrightarrow> (\<forall>j < i. \<not> P (xs ! j)) \<Longrightarrow> findIndex P xs = int i"
proof (induction xs arbitrary: i)
  case Nil
  then show ?case by simp
next
  case (Cons x xs)
  show ?case
  proof (cases i)
    case 0
    with Cons.prems show ?thesis by simp
  next
    case (Suc k)
    with Cons.prems have nx: "\<not> P x" by auto
    from Suc Cons.prems have "k < length xs" "P (xs ! k)" "\<forall>j < k. \<not> P (xs ! j)"
      by auto
    then have "findIndex P xs = int k" by (rule Cons.IH)
    with nx Suc show ?thesis by (simp add: Let_def)
  qed
qed

lemma currentNode_no_source:
  "(\<forall>s \<in> set (sources v). \<not> inRange (currentLineIndex v) s) \<Longrightarrow> currentNode v = None"
  by (simp add: currentNode_def currentSource_def currentSourceIndex_def
      findIndex_none array_get_def)

lemma currentNode_first_source:
  assumes "i < length (sources v)"
    and "inRange (currentLineIndex v) (sources v ! i)"
    and "\<forall>j < i. \<not> inRange (currentLineIndex v) (sources v ! j)"
  shows "currentNode v =
     array_get (flattenedNodes (sources v ! i))
       (currentLineIndex v - startLineIndex (sources v ! i))"
proof -
  have "currentSourceIndex v = int i"
    using assms by (simp add: currentSourceIndex_def findIndex_first)
  then have "currentSource v = Some (sources v ! i)"
    using assms(1) by (simp add: currentSource_def array_get_def)
  then show ?thesis by (simp add: currentNode_def)
qed

text \<open>
  Claim C6. With the window's cursor on row \<open>r\<close> (1-indexed), the locator works on the
  0-indexed line \<open>l = r - 1\<close>. If no source's half-open range
  \<open>[startLineIndex, endLineIndex)\<close> contains \<open>l\<close> the current node is undefined. Otherwise,
  for the (first) source whose range contains \<open>l\<close>, the current node is the element at
  index \<open>l - startLineIndex\<close> of that source's flattened sequence when this index is
  within the sequence, and undefined when it is past its end; no case raises.
\<close>

theorem locator_currentNode:
  fixes v :: "'n ViewExplorer" and r c :: int
  defines "l \<equiv> r - 1"
  defines "v' \<equiv> refreshLineIndex (Some (r, c)) v"
  shows "currentLineIndex v' = l
    \<and> ((\<forall>s \<in> set (sources v). \<not> (startLineIndex s \<le> l \<and> l < endLineIndex s))
          \<longrightarrow> currentNode v' = None)
    \<and> (\<forall>i < length (sources v).
          startLineIndex (sources v ! i) \<le> l \<and> l < endLineIndex (sources v ! i)
          \<and> (\<forall>j < i. \<not> (startLineIndex (sources v ! j) \<le> l \<and> l < endLineIndex (sources v ! j)))
          \<longrightarrow> currentNode v' =
                (if l - startLineIndex (sources v ! i) < int (length (flattenedNodes (sources v ! i)))
                 then Some (flattenedNodes (sources v ! i) ! nat (l - startLineIndex (sources v ! i)))
                 else None))"
proof -
  have cur: "currentLineIndex v' = l" and src: "sources v' = sources v"
    by (simp_all add: v'_def l_def refreshLineIndex_def)
  have none: "currentNode v' = None"
    if "\<forall>s \<in> set (sources v). \<not> (startLineIndex s \<le> l \<and> l < endLineIndex s)"
    using that currentNode_no_source [of v'] by (simp add: cur src inRange_def)
  have some: "currentNode v' =
        (if l - startLineIndex (sources v ! i) < int (length (flattenedNodes (sources v ! i)))
         then Some (flattenedNodes (sources v ! i) ! nat (l - startLineIndex (sources v ! i)))
         else None)"
    if "i < length (sources v)"
      and "startLineIndex (sources v ! i) \<le> l \<and> l < endLineIndex (sources v ! i)"
      and "\<forall>j < i. \<not> (startLineIndex (sources v ! j) \<le> l \<and> l < endLineIndex (sources v ! j))"
    for i
  proof -
    have "currentNode v' =
        array_get (flattenedNodes (sources v' ! i)) (currentLineIndex v' - startLineIndex (sources v' ! i))"
      by (rule currentNode_first_source) (use that in \<open>simp_all add: cur src inRange_def\<close>)
    with that(2) show ?thesis by (simp add: cur src array_get_def)
  qed
  from cur none some show ?thesis by blast
qed

theorem locator_currentNode_witness:
  "currentNode (refreshLineIndex (Some (4, 0)) example_view) = Some ''d''
   \<and> currentNode (refreshLineIndex (Some (9, 0)) example_view) = None"
proof -
  have a: "currentNode (refreshLineIndex (Some (4, 0)) example_view) = Some ''d''"
    using locator_currentNode [where v = example_view and r = 4 and c = 0,
        THEN conjunct2, THEN conjunct2, rule_format, of 1]
    by (simp add: example_view_def)
  have b: "currentNode (refreshLineIndex (Some (9, 0)) example_view) = None"
    using locator_currentNode [where v = example_view and r = 9 and c = 0,
        THEN conjunct2, THEN conjunct1]
    by (simp add: example_view_def)
  from a b show ?thesis by simp
qed

subsection \<open>The conflict guard\<close>

lemma checkSameFilename_frame:
  "calls (checkSameFilename env d its s) = calls s
   \<and> copyItems (checkSameFilename env d its s) = copyItems s
   \<and> cutItems (checkSameFilename env d its s) = cutItems s"
  by (simp add: checkSameFilename_def split: sum.split)

text \<open>
  The calls \<open>pasteFile\<close> issues do not depend on which paths exist: the outcome of the
  guards reaches \<open>onError\<close> only.
\<close>

lemma pasteFile_calls_ignore_guard:
  "calls (fst (pasteFile (env\<lparr>fsExists := ex\<rparr>) item s)) = calls (fst (pasteFile env item s))"
  by (simp add: pasteFile_def Let_def checkSameFilename_frame and_then_def issue_all_def
      issue_def split: sum.split)

text \<open>
  Claim C1, evaluated on the code. One item \<open>/src/x.txt\<close> is in the copy set and the paste
  target \<open>/r/x.txt\<close> already exists: the guard for that target rejects, the rejection is
  logged, and the copy onto the existing target is issued all the same; the action ends
  without an error.
\<close>

theorem pasteFile_copies_despite_conflict:
  "guardTargetPath (example_env (\<lambda>p. p = ''/r/x.txt'')) ''/r/x.txt''
     = Inl (Error ''Target file or directory /r/x.txt already exists'')
   \<and> calls (fst (pasteFile (example_env (\<lambda>p. p = ''/r/x.txt''))
                   (example_item ''/r'' ''x.txt'' False) example_source))
     = [CopyFileOrDirectory ''/src/x.txt'' ''/r/x.txt'', Reload]
   \<and> logged (fst (pasteFile (example_env (\<lambda>p. p = ''/r/x.txt''))
                   (example_item ''/r'' ''x.txt'' False) example_source))
     = [Error ''Target file or directory /r/x.txt already exists'']
   \<and> snd (pasteFile (example_env (\<lambda>p. p = ''/r/x.txt''))
                   (example_item ''/r'' ''x.txt'' False) example_source) = Inr ()"
  by (simp add: pasteFile_def Let_def checkSameFilename_def guardTargetPath_def
      getPutTargetDir_def isExpanded_def example_env_def example_item_def example_source_def
      and_then_def issue_all_def issue_def)

text \<open>
  \<open>addFile\<close> of \<open>file-source.ts\<close>: when the answer to the prompt is a non-empty
  \<open>filename\<close> and the path it joins to in the target directory already exists, the action
  throws the guard's "already exists" error and leaves the state as it was.
\<close>

lemma addFile_guard_rejects:
  assumes "filename \<noteq> []"
    and "firstItem its = Inr item"
    and "fsExists env (pathJoin env (getPutTargetDir s item) filename)"
  shows "addFile env filename its s =
      (s, Inl (Error (''Target file or directory ''
                        @ pathJoin env (getPutTargetDir s item) filename @ '' already exists'')))"
  using assms by (simp add: addFile_def guardTargetPath_def)

text \<open>
  \<open>addFile\<close> of part_000, for a name that is not empty and does not end in a separator:
  the prompt is recorded; if it throws, that error ends the action, and otherwise the
  \<open>sync\<close> block follows and the action ends as that block does.
\<close>

lemma addFile_part000_result:
  fixes col :: "'n Collaborators" and node :: 'n and fname :: string
  assumes "addFileName args answer = Some fname" and "fname \<noteq> []"
    and "\<not> isSeparator (last fname)"
  defines "target \<equiv> joinPath col (nodeFullpath col (putTargetNode col node)) fname"
  defines "prompt \<equiv> OverwritePrompt ''add file'' [(None, target)] FsTouchFn"
  defines "sync \<equiv> ViewSync (case nodeParent col (putTargetNode col node) of
                               Some p \<Rightarrow> p | None \<Rightarrow> putTargetNode col node)
                            (stripFinalSeparator target)"
  shows "addFile_part000 col node args answer file =
     (case throws col prompt of
        Some e \<Rightarrow> (file\<lparr>effects := effects file @ [prompt]\<rparr>, Inl e)
      | None \<Rightarrow>
          (file\<lparr>effects := effects file @ [prompt, sync]\<rparr>,
           case throws col sync of Some e \<Rightarrow> Inl e | None \<Rightarrow> Inr ()))"
  using assms(1-3)
  by (simp add: addFile_part000_def Let_def and_then_def awaited_def target_def prompt_def
      sync_def split: option.split)

lemma addFile_part000_ignores_existence:
  "addFile_part000 (col\<lparr>pathExists := ex\<rparr>) node args answer file
     = addFile_part000 col node args answer file"
  by (simp add: addFile_part000_def Let_def and_then_def awaited_def split: option.split)

text \<open>
  Claim C4 as stated fails on \<open>addFile\<close> of part_000. The target \<open>/r/x.txt\<close> exists, and
  \<open>addFile\<close> with the argument \<open>x.txt\<close> on the node \<open>/r\<close> ends without an error: it has
  handed the existing target to \<open>overwritePrompt\<close> under the name "add file", with the
  \<open>fsTouch\<close> callback as the function to apply, and gone on to the \<open>sync\<close> block.
\<close>

theorem addFile_part000_existing_target_no_error:
  "pathExists example_collaborators ''/r/x.txt''
   \<and> addFile_part000 example_collaborators ''/r'' [''x.txt''] None
        \<lparr>copiedNodes = [], cutNodes = [], effects = []\<rparr>
     = (\<lparr>copiedNodes = [], cutNodes = [],
         effects = [OverwritePrompt ''add file'' [(None, ''/r/x.txt'')] FsTouchFn,
                    ViewSync ''/r'' ''/r/x.txt'']\<rparr>,
        Inr ())"
  by (simp add: addFile_part000_def addFileName_def trim_def isWhiteSpace_def isSeparator_def
      stripFinalSeparator_def Let_def and_then_def awaited_def example_collaborators_def)

text \<open>
  Claim C4, as amended. \<open>addFile\<close> of \<open>file-source.ts\<close>: when the answer to the prompt is a
  non-empty \<open>filename\<close> and the path it joins to in the target directory already exists,
  the action throws the guard's "already exists" error and leaves the state as it was: no
  call is issued, so neither \<open>fsMkdir\<close> nor \<open>fsTouch\<close> happens. \<open>addFile\<close> of part_000, for
  a name that is not empty and does not end in a separator: it makes no check of its own
  and what it does is the same whichever paths exist; it hands the one pair (no source,
  the target path) to \<open>overwritePrompt\<close> under the name "add file" with the \<open>fsTouch\<close>
  callback, and throws only what \<open>overwritePrompt\<close> or the \<open>sync\<close> block after it throws.
\<close>

theorem addFile_existing_target_by_version:
  fixes col :: "'n Collaborators" and node :: 'n and fname :: string
  defines "target \<equiv> joinPath col (nodeFullpath col (putTargetNode col node)) fname"
  defines "prompt \<equiv> OverwritePrompt ''add file'' [(None, target)] FsTouchFn"
  defines "sync \<equiv> ViewSync (case nodeParent col (putTargetNode col node) of
                               Some p \<Rightarrow> p | None \<Rightarrow> putTargetNode col node)
                            (stripFinalSeparator target)"
  shows "(filename \<noteq> [] \<and> firstItem its = Inr item
          \<and> fsExists env (pathJoin env (getPutTargetDir s item) filename)
          \<longrightarrow> addFile env filename its s =
                 (s, Inl (Error (''Target file or directory ''
                          @ pathJoin env (getPutTargetDir s item) filename @ '' already exists'')))
              \<and> calls (fst (addFile env filename its s)) = calls s)
    \<and> (addFileName args answer = Some fname \<and> fname \<noteq> [] \<and> \<not> isSeparator (last fname)
          \<longrightarrow> addFile_part000 col node args answer owner =
                 (case throws col prompt of
                    Some e \<Rightarrow> (owner\<lparr>effects := effects owner @ [prompt]\<rparr>, Inl e)
                  | None \<Rightarrow>
                      (owner\<lparr>effects := effects owner @ [prompt, sync]\<rparr>,
                       case throws col sync of Some e \<Rightarrow> Inl e | None \<Rightarrow> Inr ()))
              \<and> addFile_part000 (col\<lparr>pathExists := ex\<rparr>) node args answer owner
                  = addFile_part000 col node args answer owner)"
proof (intro conjI impI)
  assume a: "filename \<noteq> [] \<and> firstItem its = Inr item
          \<and> fsExists env (pathJoin env (getPutTargetDir s item) filename)"
  then show "addFile env filename its s =
                 (s, Inl (Error (''Target file or directory ''
                          @ pathJoin env (getPutTargetDir s item) filename @ '' already exists'')))"
    by (simp add: addFile_guard_rejects)
  then show "calls (fst (addFile env filename its s)) = calls s" by simp
next
  assume b: "addFileName args answer = Some fname \<and> fname \<noteq> [] \<and> \<not> isSeparator (last fname)"
  then show "addFile_part000 col node args answer owner =
                 (case throws col prompt of
                    Some e \<Rightarrow> (owner\<lparr>effects := effects owner @ [prompt]\<rparr>, Inl e)
                  | None \<Rightarrow>
                      (owner\<lparr>effects := effects owner @ [prompt, sync]\<rparr>,
                       case throws col sync of Some e \<Rightarrow> Inl e | None \<Rightarrow> Inr ()))"
    unfolding target_def prompt_def sync_def by (intro addFile_part000_result) simp_all
next
  show "addFile_part000 (col\<lparr>pathExists := ex\<rparr>) node args answer owner
                  = addFile_part000 col node args answer owner"
    by (rule addFile_part000_ignores_existence)
qed

theorem addFile_existing_target_by_version_witness:
  "addFile (example_env (\<lambda>p. p = ''/r/x.txt'')) ''x.txt'' None example_source =
      (example_source, Inl (Error ''Target file or directory /r/x.txt already exists''))
   \<and> calls (fst (addFile (example_env (\<lambda>p. p = ''/r/x.txt'')) ''x.txt'' None example_source)) = []
   \<and> addFile_part000 (example_collaborators\<lparr>pathExists := (\<lambda>p. False)\<rparr>) ''/r'' [''y.txt''] None
        \<lparr>copiedNodes = [], cutNodes = [], effects = []\<rparr>
     = (\<lparr>copiedNodes = [], cutNodes = [],
         effects = [OverwritePrompt ''add file'' [(None, ''/r/y.txt'')] FsTouchFn,
                    ViewSync ''/r'' ''/r/y.txt'']\<rparr>,
        Inr ())"
proof -
  have n: "addFileName [''y.txt''] None = Some ''y.txt''"
    by (simp add: addFileName_def trim_def isWhiteSpace_def)
  note t = addFile_existing_target_by_version
    [where filename = "''x.txt''" and its = None and item = None
      and env = "example_env (\<lambda>p. p = ''/r/x.txt'')" and s = example_source
      and col = example_collaborators and node = "''/r''" and args = "[''y.txt'']"
      and answer = None and fname = "''y.txt''" and ex = "\<lambda>p. False"
      and owner = "\<lparr>copiedNodes = [], cutNodes = [], effects = []\<rparr>"]
  from t n show ?thesis
    by (simp add: firstItem_def getPutTargetDir_def example_env_def example_source_def
        isSeparator_def stripFinalSeparator_def example_collaborators_def)
qed

subsection \<open>Loading\<close>

text \<open>
  Claim C10. Whatever the state, the store and the file system, \<open>loadItems\<close> leaves both
  the copy set and the cut set empty, also when the listing of the root throws.
\<close>

theorem loadItems_clears_clipboard:
  "copyItems (fst (loadItems env sourceItem s)) = []
   \<and> cutItems (fst (loadItems env sourceItem s)) = []"
  by (simp add: loadItems_def Let_def split: sum.split prod.split)

lemma mset_insort_cmp: "mset (insort_cmp cmp x ys) = add_mset x (mset ys)"
  by (induction ys) simp_all

lemma mset_array_sort: "mset (array_sort cmp xs) = mset xs"
  by (induction xs) (simp_all add: array_sort_def mset_insort_cmp)

lemma listFiles_readable:
  "fsReaddir dir = Inr files \<Longrightarrow>
     listFiles env store path par dir =
       Inr (sortFiles env (List.map_filter fst
              (map (\<lambda>(fname, entry). loadEntry env store path par fname entry) files)),
            concat (map snd (map (\<lambda>(fname, entry). loadEntry env store path par fname entry) files)))"
  by (simp add: listFiles.simps Let_def)

lemma listFiles_unreadable:
  "fsReaddir dir = Inl e \<Longrightarrow> listFiles env store path par dir = Inl e"
  by (simp add: listFiles.simps)

lemma loadEntry_listed:
  assumes "entryListed env store path (fname, entry)"
  shows "\<exists>item. fst (loadEntry env store path par fname entry) = Some item \<and> name item = fname"
proof (cases "fsReaddir entry")
  case (Inl e)
  with assms show ?thesis
    by (auto simp: loadEntry.simps entryListed_def metadataError_def Let_def
        split: sum.splits if_splits)
next
  case (Inr files)
  from assms show ?thesis
    by (auto simp: loadEntry.simps listFiles_readable [OF Inr] entryListed_def
        metadataError_def Let_def split: sum.splits if_splits)
qed

lemma loadEntry_not_listed:
  assumes "\<not> entryListed env store path (fname, entry)"
  shows "fst (loadEntry env store path par fname entry) = None"
proof (cases "fsReaddir entry")
  case (Inl e)
  with assms show ?thesis
    by (auto simp: loadEntry.simps listFiles_unreadable [OF Inl] entryListed_def
        metadataError_def Let_def split: sum.splits if_splits)
next
  case (Inr files)
  with assms show ?thesis
    by (auto simp: loadEntry.simps entryListed_def metadataError_def Let_def
        split: sum.splits if_splits)
qed

lemma loadEntry_logs:
  "metadataError entry = Some e \<Longrightarrow> snd (loadEntry env store path par fname entry) = [e]"
  by (auto simp: loadEntry.simps metadataError_def Let_def split: sum.splits)

lemma names_of_loaded:
  "mset (map name (List.map_filter fst
            (map (\<lambda>(fname, entry). loadEntry env store path par fname entry) files)))
   = mset (map fst (filter (entryListed env store path) files))"
proof (induction files)
  case Nil
  show ?case by (simp add: List.map_filter_simps)
next
  case (Cons fe files)
  obtain fname entry where fe: "fe = (fname, entry)" by (cases fe)
  show ?case
  proof (cases "entryListed env store path (fname, entry)")
    case True
    from loadEntry_listed [OF True, of par] obtain item
      where "fst (loadEntry env store path par fname entry) = Some item" "name item = fname"
      by blast
    with True Cons.IH fe show ?thesis by (simp add: List.map_filter_simps)
  next
    case False
    from loadEntry_not_listed [OF False, of par] False Cons.IH fe
    show ?thesis by (simp add: List.map_filter_simps)
  qed
qed

lemma loadEntry_logs_unreadable:
  assumes "metadataError entry = None" and "isExpanded store (pathJoin env path fname)"
    and "fsReaddir entry = Inl e"
  shows "snd (loadEntry env store path par fname entry) = [e]"
  using assms
  by (auto simp: loadEntry.simps listFiles_unreadable [OF assms(3)] metadataError_def Let_def
      split: sum.splits)

text \<open>
  Claim C9 as stated fails on the code. In the directory \<open>/r\<close> the entry \<open>bad\<close> cannot be
  \<open>stat\<close>ed; its sibling \<open>a\<close> has all its metadata retrieved, but \<open>/r/a\<close> is expanded in
  the store and reading that directory throws. The listing succeeds and holds \<open>b.txt\<close>
  only: the sibling \<open>a\<close> is dropped as well, and both errors are handed to \<open>onError\<close>.
\<close>

theorem listFiles_unreadable_sibling_dropped:
  "metadataError example_unreadable = None
   \<and> listFiles (example_env (\<lambda>p. False)) (Map.empty(''/r'' \<mapsto> True, ''/r/a'' \<mapsto> True))
         ''/r'' None example_dir_unreadable
     = Inr ([example_item ''/r'' ''b.txt'' False], [Error ''EACCES'', Error ''EPERM''])"
  by (simp add: listFiles.simps loadEntry.simps metadataError_def example_unreadable_def
      example_dir_unreadable_def example_entry_def example_broken_def example_item_def
      example_env_def isExpanded_def startsWith_def sortFiles_def array_sort_def
      List.map_filter_simps Let_def)

text \<open>
  Claim C9, as amended. When the directory itself can be read, \<open>listFiles\<close> returns a list
  and does not throw, whatever its entries do. An entry is dropped from the list, with its
  error handed to \<open>onError\<close>, when its \<open>fsStat\<close> or an \<open>fsAccess\<close> throws, and also when
  its metadata is retrieved but its path is expanded in the store and reading its own
  directory throws. The names returned are exactly the names of all the other entries: a
  failing entry never keeps a sibling out of the list.
\<close>

theorem listFiles_drops_failing_entries:
  assumes "fsReaddir dir = Inr files"
  shows "\<exists>its log. listFiles env store path par dir = Inr (its, log)
      \<and> mset (map name its) = mset (map fst (filter (entryListed env store path) files))
      \<and> (\<forall>fe \<in> set files. \<forall>e. metadataError (snd fe) = Some e
            \<longrightarrow> \<not> entryListed env store path fe \<and> e \<in> set log)
      \<and> (\<forall>fe \<in> set files. \<forall>e. metadataError (snd fe) = None
            \<and> isExpanded store (pathJoin env path (fst fe)) \<and> fsReaddir (snd fe) = Inl e
            \<longrightarrow> \<not> entryListed env store path fe \<and> e \<in> set log)
      \<and> (\<forall>fe \<in> set files. \<not> entryListed env store path fe
            \<longrightarrow> metadataError (snd fe) \<noteq> None
                \<or> (isExpanded store (pathJoin env path (fst fe)) \<and> isl (fsReaddir (snd fe))))"
proof -
  let ?results = "map (\<lambda>(fname, entry). loadEntry env store path par fname entry) files"
  let ?its = "sortFiles env (List.map_filter fst ?results)"
  let ?log = "concat (map snd ?results)"
  have eq: "listFiles env store path par dir = Inr (?its, ?log)"
    using assms by (simp add: listFiles_readable)
  have names: "mset (map name ?its) = mset (map fst (filter (entryListed env store path) files))"
    using names_of_loaded [of env store path par files]
    by (simp add: sortFiles_def mset_array_sort)
  have logs: "\<not> entryListed env store path fe \<and> e \<in> set ?log"
    if "fe \<in> set files" and "metadataError (snd fe) = Some e" for fe e
  proof -
    obtain fname entry where fe: "fe = (fname, entry)" by (cases fe)
    from that(2) fe have "snd (loadEntry env store path par fname entry) = [e]"
      by (simp add: loadEntry_logs)
    with that(1) fe have "e \<in> set ?log" by force
    moreover from that(2) have "\<not> entryListed env store path fe"
      by (simp add: entryListed_def)
    ultimately show ?thesis by simp
  qed
  have logs2: "\<not> entryListed env store path fe \<and> e \<in> set ?log"
    if "fe \<in> set files" and "metadataError (snd fe) = None"
      and "isExpanded store (pathJoin env path (fst fe))" and "fsReaddir (snd fe) = Inl e"
    for fe e
  proof -
    obtain fname entry where fe: "fe = (fname, entry)" by (cases fe)
    from that(2-4) fe have "snd (loadEntry env store path par fname entry) = [e]"
      by (simp add: loadEntry_logs_unreadable)
    with that(1) fe have "e \<in> set ?log" by force
    moreover from that(3,4) have "\<not> entryListed env store path fe"
      by (simp add: entryListed_def)
    ultimately show ?thesis by simp
  qed
  have only: "metadataError (snd fe) \<noteq> None
      \<or> (isExpanded store (pathJoin env path (fst fe)) \<and> isl (fsReaddir (snd fe)))"
    if "\<not> entryListed env store path fe" for fe
    using that by (auto simp: entryListed_def split: if_splits)
  have c3: "\<forall>fe \<in> set files. \<forall>e. metadataError (snd fe) = Some e
            \<longrightarrow> \<not> entryListed env store path fe \<and> e \<in> set ?log"
    using logs by blast
  have c4: "\<forall>fe \<in> set files. \<forall>e. metadataError (snd fe) = None
            \<and> isExpanded store (pathJoin env path (fst fe)) \<and> fsReaddir (snd fe) = Inl e
            \<longrightarrow> \<not> entryListed env store path fe \<and> e \<in> set ?log"
    using logs2 by blast
  have c5: "\<forall>fe \<in> set files. \<not> entryListed env store path fe
            \<longrightarrow> metadataError (snd fe) \<noteq> None
                \<or> (isExpanded store (pathJoin env path (fst fe)) \<and> isl (fsReaddir (snd fe)))"
    using only by blast
  show ?thesis
    by (intro exI [of _ ?its] exI [of _ ?log] conjI eq names c3 c4 c5)
qed

theorem listFiles_drops_failing_entries_witness:
  "\<exists>its log. listFiles (example_env (\<lambda>p. False)) (Map.empty(''/r'' \<mapsto> True, ''/r/a'' \<mapsto> True))
        ''/r'' None example_dir_unreadable = Inr (its, log)
      \<and> mset (map name its) = {#''b.txt''#}
      \<and> Error ''EACCES'' \<in> set log \<and> Error ''EPERM'' \<in> set log"
proof -
  have rd: "fsReaddir example_dir_unreadable =
      Inr [(''bad'', example_broken), (''a'', example_unreadable),
           (''b.txt'', example_entry False [])]"
    by (simp add: example_dir_unreadable_def example_entry_def)
  from listFiles_drops_failing_entries [OF rd, of "example_env (\<lambda>p. False)"
      "Map.empty(''/r'' \<mapsto> True, ''/r/a'' \<mapsto> True)" "''/r''" None]
  show ?thesis
    by (simp add: entryListed_def metadataError_def example_entry_def example_broken_def
        example_unreadable_def example_env_def isExpanded_def)
qed

subsection \<open>Sorting\<close>

lemma set_insort_cmp: "set (insort_cmp cmp x ys) = insert x (set ys)"
  by (induction ys) auto

lemma cmp_total: "consistentCompare cmp \<Longrightarrow> 0 < cmp a b \<Longrightarrow> cmp b a \<le> 0"
  by (auto simp: consistentCompare_def order.strict_implies_order)

lemma cmp_trans: "consistentCompare cmp \<Longrightarrow> cmp a b \<le> 0 \<Longrightarrow> cmp b c \<le> 0 \<Longrightarrow> cmp a c \<le> 0"
  unfolding consistentCompare_def by blast

lemma cmp_zero_sym: "consistentCompare cmp \<Longrightarrow> cmp a b = 0 \<Longrightarrow> cmp b a = 0"
proof -
  assume c: "consistentCompare cmp" and z: "cmp a b = 0"
  from c have "(cmp b a < 0) = (0 < cmp a b)" "(cmp a b < 0) = (0 < cmp b a)"
    unfolding consistentCompare_def by blast+
  with z show "cmp b a = 0" by simp
qed

lemma sorted_insort_cmp:
  assumes "consistentCompare cmp"
  shows "sorted_wrt (\<lambda>a b. cmp a b \<le> 0) ys
    \<Longrightarrow> sorted_wrt (\<lambda>a b. cmp a b \<le> 0) (insort_cmp cmp x ys)"
proof (induction ys)
  case Nil
  show ?case by simp
next
  case (Cons y ys)
  show ?case
  proof (cases "cmp x y \<le> 0")
    case True
    have "cmp x z \<le> 0" if "z \<in> set ys" for z
      using Cons.prems that True cmp_trans [OF assms, of x y z] by simp
    with True Cons.prems show ?thesis by simp
  next
    case False
    then have "cmp y x \<le> 0" using cmp_total [OF assms, of x y] by simp
    with False Cons show ?thesis by (auto simp: set_insort_cmp)
  qed
qed

lemma sorted_array_sort:
  "consistentCompare cmp \<Longrightarrow> sorted_wrt (\<lambda>a b. cmp a b \<le> 0) (array_sort cmp xs)"
  by (induction xs) (simp_all add: array_sort_def sorted_insort_cmp)

lemma filter_insort_cmp:
  assumes "consistentCompare cmp"
  shows "filter (\<lambda>y. cmp k y = 0) (insort_cmp cmp x ys) =
     (if cmp k x = 0 then x # filter (\<lambda>y. cmp k y = 0) ys else filter (\<lambda>y. cmp k y = 0) ys)"
proof (induction ys)
  case Nil
  show ?case by simp
next
  case (Cons y ys)
  have "cmp x y \<le> 0" if "cmp k x = 0" "cmp k y = 0"
    using cmp_trans [OF assms, of x k y] cmp_zero_sym [OF assms, of k x] that by simp
  with Cons show ?case by auto
qed

lemma stable_array_sort:
  "consistentCompare cmp \<Longrightarrow>
     filter (\<lambda>y. cmp k y = 0) (array_sort cmp xs) = filter (\<lambda>y. cmp k y = 0) xs"
  by (induction xs) (simp_all add: array_sort_def filter_insort_cmp)

lemma compareFiles_same_kind:
  "directory a = directory b \<Longrightarrow> compareFiles env a b = localeCompare env (name a) (name b)"
  by (simp add: compareFiles_def)

lemma compareFiles_dir_file:
  "directory a \<Longrightarrow> \<not> directory b \<Longrightarrow> compareFiles env a b = - 1"
  by (simp add: compareFiles_def)

lemma compareFiles_file_dir:
  "\<not> directory a \<Longrightarrow> directory b \<Longrightarrow> compareFiles env a b = 1"
  by (simp add: compareFiles_def)

lemma compareFiles_consistent:
  assumes "consistentCompare (localeCompare env)"
  shows "consistentCompare (compareFiles env)"
  unfolding consistentCompare_def
proof (intro conjI allI impI)
  fix a b
  from assms have lc: "(localeCompare env (name b) (name a) < 0) = (0 < localeCompare env (name a) (name b))"
    unfolding consistentCompare_def by blast
  show "(compareFiles env b a < 0) = (0 < compareFiles env a b)"
  proof (cases "directory a = directory b")
    case True
    then show ?thesis using lc by (simp add: compareFiles_same_kind)
  next
    case False
    then show ?thesis
      by (cases "directory a") (simp_all add: compareFiles_dir_file compareFiles_file_dir)
  qed
next
  fix a b c
  assume le: "compareFiles env a b \<le> 0 \<and> compareFiles env b c \<le> 0"
  have ab: "directory b \<Longrightarrow> directory a"
    using le by (cases "directory a") (simp_all add: compareFiles_file_dir)
  have bc: "directory c \<Longrightarrow> directory b"
    using le by (cases "directory b") (simp_all add: compareFiles_file_dir)
  show "compareFiles env a c \<le> 0"
  proof (cases "directory a = directory c")
    case True
    with ab bc have same: "directory a = directory b" "directory b = directory c" by auto
    with le have "localeCompare env (name a) (name b) \<le> 0" "localeCompare env (name b) (name c) \<le> 0"
      by (simp_all add: compareFiles_same_kind)
    then have "localeCompare env (name a) (name c) \<le> 0"
      by (rule cmp_trans [OF assms])
    with True show ?thesis by (simp add: compareFiles_same_kind)
  next
    case False
    with ab bc have "directory a" "\<not> directory c" by auto
    then show ?thesis by (simp add: compareFiles_dir_file)
  qed
qed

text \<open>
  Claim C8. For a consistent \<open>localeCompare\<close>, \<open>sortFiles\<close> returns a permutation of its
  argument in which, for any two positions, a directory is never after a non-directory
  and two entries of the same kind have their names in \<open>localeCompare\<close> order; entries that
  compare equal keep the order they had (the sort is stable).
\<close>

theorem sortFiles_order:
  assumes "consistentCompare (localeCompare env)"
  shows "mset (sortFiles env files) = mset files
    \<and> sorted_wrt (\<lambda>a b. (directory b \<longrightarrow> directory a)
          \<and> (directory a = directory b \<longrightarrow> localeCompare env (name a) (name b) \<le> 0))
        (sortFiles env files)
    \<and> (\<forall>k. filter (\<lambda>x. compareFiles env k x = 0) (sortFiles env files)
            = filter (\<lambda>x. compareFiles env k x = 0) files)"
proof -
  note c = compareFiles_consistent [OF assms]
  have "sorted_wrt (\<lambda>a b. compareFiles env a b \<le> 0) (sortFiles env files)"
    unfolding sortFiles_def by (rule sorted_array_sort [OF c])
  moreover have "(directory b \<longrightarrow> directory a)
      \<and> (directory a = directory b \<longrightarrow> localeCompare env (name a) (name b) \<le> 0)"
    if "compareFiles env a b \<le> 0" for a b
  proof (cases "directory a = directory b")
    case True
    with that show ?thesis by (simp add: compareFiles_same_kind)
  next
    case False
    with that show ?thesis
      by (cases "directory a") (simp_all add: compareFiles_file_dir)
  qed
  ultimately have "sorted_wrt (\<lambda>a b. (directory b \<longrightarrow> directory a)
          \<and> (directory a = directory b \<longrightarrow> localeCompare env (name a) (name b) \<le> 0))
        (sortFiles env files)"
    by (rule sorted_wrt_mono_rel [rotated]) blast
  moreover have "mset (sortFiles env files) = mset files"
    by (simp add: sortFiles_def mset_array_sort)
  moreover have "filter (\<lambda>x. compareFiles env k x = 0) (sortFiles env files)
            = filter (\<lambda>x. compareFiles env k x = 0) files" for k
    unfolding sortFiles_def by (rule stable_array_sort [OF c])
  ultimately show ?thesis by blast
qed

theorem sortFiles_order_witness:
  "consistentCompare (localeCompare (example_env (\<lambda>p. False)))
   \<and> mset (sortFiles (example_env (\<lambda>p. False)) example_files) = mset example_files
   \<and> sorted_wrt (\<lambda>a b. (directory b \<longrightarrow> directory a)
          \<and> (directory a = directory b
                \<longrightarrow> localeCompare (example_env (\<lambda>p. False)) (name a) (name b) \<le> 0))
        (sortFiles (example_env (\<lambda>p. False)) example_files)
   \<and> map name (sortFiles (example_env (\<lambda>p. False)) example_files) = [''zzz'', ''a'', ''c'', ''bb'']"
proof -
  have c: "consistentCompare (localeCompare (example_env (\<lambda>p. False)))"
    by (auto simp: consistentCompare_def example_env_def)
  have "map name (sortFiles (example_env (\<lambda>p. False)) example_files) = [''zzz'', ''a'', ''c'', ''bb'']"
    by (simp add: sortFiles_def array_sort_def compareFiles_def example_files_def
        example_item_def example_env_def)
  with c sortFiles_order [OF c, of example_files] show ?thesis by blast
qed

subsection \<open>Drawing\<close>

lemma set_isFirstInLevel_sel [simp]:
  "isFirstInLevel (set_isFirstInLevel b x) = b"
  "isLastInLevel (set_isFirstInLevel b x) = isLastInLevel x"
  "hidden (set_isFirstInLevel b x) = hidden x"
  "uid (set_isFirstInLevel b x) = uid x"
  "fullpath (set_isFirstInLevel b x) = fullpath x"
  "children (set_isFirstInLevel b x) = children x"
  by (cases x; simp)+

lemma set_isLastInLevel_sel [simp]:
  "isLastInLevel (set_isLastInLevel b x) = b"
  "isFirstInLevel (set_isLastInLevel b x) = isFirstInLevel x"
  "hidden (set_isLastInLevel b x) = hidden x"
  "uid (set_isLastInLevel b x) = uid x"
  "fullpath (set_isLastInLevel b x) = fullpath x"
  "children (set_isLastInLevel b x) = children x"
  by (cases x; simp)+

lemma set_children_sel [simp]:
  "children (set_children cs x) = cs"
  "isFirstInLevel (set_children cs x) = isFirstInLevel x"
  "isLastInLevel (set_children cs x) = isLastInLevel x"
  "hidden (set_children cs x) = hidden x"
  "uid (set_children cs x) = uid x"
  "fullpath (set_children cs x) = fullpath x"
  by (cases x; simp)+

lemma filteredIndexes_shown:
  "filteredIndexes sh its = filter (\<lambda>i. shown sh (its ! i)) [0..<length its]"
  by (simp add: filteredIndexes_def shown_def)

lemma filteredIndexes_cong:
  "length xs = length ys \<Longrightarrow> (\<And>i. i < length ys \<Longrightarrow> hidden (xs ! i) = hidden (ys ! i))
     \<Longrightarrow> filteredIndexes sh xs = filteredIndexes sh ys"
  by (auto simp: filteredIndexes_shown shown_def intro!: filter_cong)

lemma filteredIndexes_bound: "i \<in> set (filteredIndexes sh its) \<Longrightarrow> i < length its \<and> shown sh (its ! i)"
  by (simp add: filteredIndexes_shown)

lemma filteredIndexes_distinct: "distinct (filteredIndexes sh its)"
  by (simp add: filteredIndexes_shown)

lemma filter_by_indexes:
  "filter (shown sh) its = map ((!) its) (filteredIndexes sh its)"
proof -
  have "filter (shown sh) (map ((!) its) [0..<length its])
      = map ((!) its) (filter (shown sh \<circ> (!) its) [0..<length its])"
    by (rule filter_map)
  then show ?thesis by (simp add: map_nth filteredIndexes_shown comp_def)
qed

lemma length_markLevel [simp]: "length (markLevel sh its) = length its"
  by (simp add: markLevel_def Let_def)

lemma nth_update_sel:
  assumes "i < length xs" and "k < length xs \<Longrightarrow> g v = g (xs ! k)"
  shows "g (xs[k := v] ! i) = g (xs ! i)"
proof (cases "k = i")
  case True
  with assms show ?thesis by simp
next
  case False
  then show ?thesis by simp
qed

lemma markLevel_keeps:
  assumes "i < length its"
    and first: "\<And>b x. g (set_isFirstInLevel b x) = g x"
    and last: "\<And>b x. g (set_isLastInLevel b x) = g x"
  shows "g (markLevel sh its ! i) = g (its ! i)"
proof -
  let ?its1 = "map (\<lambda>item. set_isLastInLevel False (set_isFirstInLevel False item)) its"
  have one: "g (?its1 ! i) = g (its ! i)"
    using assms by simp
  have two: "g (?its1[k := set_isFirstInLevel True (?its1 ! k)] ! i) = g (its ! i)" for k
    using assms(1) one by (subst nth_update_sel) (simp_all add: first)
  have three: "g (xs[k := set_isLastInLevel True (xs ! k)] ! i) = g (xs ! i)"
    if "i < length xs" for xs k
    using that by (subst nth_update_sel) (simp_all add: last)
  show ?thesis
    using assms(1) one two by (simp add: markLevel_def Let_def three)
qed

lemma markLevel_nth:
  assumes "i < length its"
  shows "hidden (markLevel sh its ! i) = hidden (its ! i)"
    and "uid (markLevel sh its ! i) = uid (its ! i)"
    and "fullpath (markLevel sh its ! i) = fullpath (its ! i)"
    and "children (markLevel sh its ! i) = children (its ! i)"
  using assms by (simp_all add: markLevel_keeps)

lemma markLevel_flags:
  fixes sh :: bool and its :: "FileItem list"
  assumes "i < length its"
  defines "idx \<equiv> filteredIndexes sh its"
  shows "isFirstInLevel (markLevel sh its ! i) \<longleftrightarrow> idx \<noteq> [] \<and> i = idx ! 0"
    and "isLastInLevel (markLevel sh its ! i) \<longleftrightarrow> idx \<noteq> [] \<and> i = idx ! (length idx - 1)"
proof -
  let ?its1 = "map (\<lambda>item. set_isLastInLevel False (set_isFirstInLevel False item)) its"
  have idx1: "filteredIndexes sh ?its1 = idx"
    unfolding idx_def by (rule filteredIndexes_cong) simp_all
  have bounds: "idx ! 0 < length its" "idx ! (length idx - 1) < length its" if "idx \<noteq> []"
    using that filteredIndexes_bound [of _ sh its] nth_mem [of _ idx]
    by (simp_all add: idx_def)
  show "isFirstInLevel (markLevel sh its ! i) \<longleftrightarrow> idx \<noteq> [] \<and> i = idx ! 0"
    using assms(1) bounds by (auto simp: markLevel_def Let_def idx1 nth_list_update)
  show "isLastInLevel (markLevel sh its ! i) \<longleftrightarrow> idx \<noteq> [] \<and> i = idx ! (length idx - 1)"
    using assms(1) bounds by (auto simp: markLevel_def Let_def idx1 nth_list_update)
qed

lemma length_drawSubDirectory [simp]:
  "length (fst (drawSubDirectory sh store its)) = length its"
  by (simp add: drawSubDirectory.simps [of sh store its] Let_def)

lemma drawSubDirectory_keeps:
  assumes "i < length its" and "\<And>cs x. g (set_children cs x) = g x"
  shows "g (fst (drawSubDirectory sh store its) ! i) = g (markLevel sh its ! i)"
  using assms
  by (simp add: drawSubDirectory.simps [of sh store its] Let_def split: option.split prod.split)

lemma drawSubDirectory_children:
  assumes "i < length its" and "shown sh (its ! i)"
    and "isExpanded store (fullpath (its ! i))" and "children (its ! i) = Some cs"
  shows "children (fst (drawSubDirectory sh store its) ! i)
     = Some (fst (drawSubDirectory sh store cs))"
  using assms
  by (simp add: drawSubDirectory.simps [of sh store its] Let_def markLevel_nth shown_def
      split: prod.split)

lemma drawSubDirectory_rows_shown:
  "r \<in> set (snd (drawSubDirectory sh store its)) \<Longrightarrow> shown sh r"
proof (induction sh store its arbitrary: r rule: drawSubDirectory.induct)
  case (1 showHidden store its)
  from "1.prems" obtain item where item: "item \<in> set (markLevel showHidden its)"
    and r: "r \<in> set (snd (if showHidden \<or> \<not> hidden item then
            (if isExpanded store (fullpath item) then
               (case children item of
                  Some cs \<Rightarrow>
                    (let (cs', rows) = drawSubDirectory showHidden store cs
                     in (set_children (Some cs') item, item # rows))
                | None \<Rightarrow> (item, [item]))
             else (item, [item]))
          else (item, [])))"
    by (auto simp: drawSubDirectory.simps [of showHidden store its] Let_def)
  show ?case
  proof (cases "showHidden \<or> \<not> hidden item")
    case False
    with r show ?thesis by simp
  next
    case vis: True
    show ?thesis
    proof (cases "isExpanded store (fullpath item)")
      case False
      with vis r show ?thesis by (auto simp: shown_def)
    next
      case ex: True
      show ?thesis
      proof (cases "children item")
        case None
        with vis ex r show ?thesis by (auto simp: shown_def)
      next
        case (Some cs)
        with vis ex r have "r = item \<or> r \<in> set (snd (drawSubDirectory showHidden store cs))"
          by (auto split: prod.splits)
        then show ?thesis
        proof
          assume "r = item"
          with vis show ?thesis by (simp add: shown_def)
        next
          assume "r \<in> set (snd (drawSubDirectory showHidden store cs))"
          with "1.IH" [OF item vis ex Some] show ?thesis by simp
        qed
      qed
    qed
  qed
qed

text \<open>
  Claim C7. Let \<open>its'\<close> be a sibling list as one draw pass (\<open>drawSubDirectory\<close>) leaves
  it, \<open>rows\<close> the rows the pass added and \<open>vis\<close> the items of \<open>its'\<close> that pass the
  hidden-file filter. The pass keeps the items and their \<open>hidden\<close> marks. When hidden files
  are not shown, no row is added for a hidden item, at any depth, and a hidden item of the
  list has neither flag. Within \<open>vis\<close>, \<open>isFirstInLevel\<close> holds of exactly the first
  item and \<open>isLastInLevel\<close> of exactly the last. The children of an item that passes the
  filter, is expanded and has loaded children are themselves left as \<open>drawSubDirectory\<close>
  leaves them, so all of this holds of every sibling list the pass visits.
\<close>

theorem drawSubDirectory_flags:
  fixes sh :: bool and store :: expand_record and its :: "FileItem list"
  defines "its' \<equiv> fst (drawSubDirectory sh store its)"
  defines "rows \<equiv> snd (drawSubDirectory sh store its)"
  defines "vis \<equiv> filter (\<lambda>x. sh \<or> \<not> hidden x) its'"
  shows "map uid its' = map uid its \<and> map hidden its' = map hidden its
    \<and> (\<not> sh \<longrightarrow> (\<forall>r \<in> set rows. \<not> hidden r))
    \<and> (\<not> sh \<longrightarrow> (\<forall>x \<in> set its'. hidden x \<longrightarrow> \<not> isFirstInLevel x \<and> \<not> isLastInLevel x))
    \<and> (\<forall>k < length vis. (isFirstInLevel (vis ! k) \<longleftrightarrow> k = 0)
                          \<and> (isLastInLevel (vis ! k) \<longleftrightarrow> k + 1 = length vis))
    \<and> (\<forall>i < length its. \<forall>cs.
          (sh \<or> \<not> hidden (its ! i)) \<and> isExpanded store (fullpath (its ! i))
          \<and> children (its ! i) = Some cs
          \<longrightarrow> children (its' ! i) = Some (fst (drawSubDirectory sh store cs)))"
proof -
  define idx where "idx = filteredIndexes sh its"
  have len: "length its' = length its" by (simp add: its'_def)
  have hid: "hidden (its' ! i) = hidden (its ! i)" and uid: "uid (its' ! i) = uid (its ! i)"
    if "i < length its" for i
    using that by (simp_all add: its'_def drawSubDirectory_keeps markLevel_nth)
  have fst_flag: "isFirstInLevel (its' ! i) \<longleftrightarrow> idx \<noteq> [] \<and> i = idx ! 0"
    and lst_flag: "isLastInLevel (its' ! i) \<longleftrightarrow> idx \<noteq> [] \<and> i = idx ! (length idx - 1)"
    if "i < length its" for i
    using that by (simp_all add: its'_def idx_def drawSubDirectory_keeps markLevel_flags)
  have idx': "filteredIndexes sh its' = idx"
    unfolding idx_def by (rule filteredIndexes_cong) (simp_all add: len hid)
  have vis: "vis = map ((!) its') idx"
  proof -
    have "shown sh = (\<lambda>x. sh \<or> \<not> hidden x)" by (simp add: shown_def fun_eq_iff)
    with filter_by_indexes [of sh its'] show ?thesis by (simp add: vis_def idx')
  qed
  have idx_mem: "i < length its \<and> shown sh (its ! i)" if "i \<in> set idx" for i
    using that filteredIndexes_bound [of i sh its] by (simp add: idx_def)
  have dist: "distinct idx" by (simp add: idx_def filteredIndexes_distinct)
  have same: "map uid its' = map uid its \<and> map hidden its' = map hidden its"
    by (auto simp: list_eq_iff_nth_eq len hid uid)
  have rows: "\<not> hidden r" if "\<not> sh" "r \<in> set rows" for r
    using that drawSubDirectory_rows_shown [of r sh store its] by (simp add: rows_def shown_def)
  have hidden_flags: "\<not> isFirstInLevel x \<and> \<not> isLastInLevel x"
    if "\<not> sh" "x \<in> set its'" "hidden x" for x
  proof -
    from that(2) obtain i where i: "i < length its" "x = its' ! i"
      by (auto simp: in_set_conv_nth len)
    with that(1,3) have "\<not> shown sh (its ! i)" by (simp add: shown_def hid)
    then have "i \<notin> set idx" using idx_mem by blast
    then have "idx \<noteq> [] \<Longrightarrow> i \<noteq> idx ! 0 \<and> i \<noteq> idx ! (length idx - 1)"
      using nth_mem [of 0 idx] nth_mem [of "length idx - 1" idx] by auto
    with i show ?thesis by (auto simp: fst_flag lst_flag)
  qed
  have vis_flags: "(isFirstInLevel (vis ! k) \<longleftrightarrow> k = 0)
      \<and> (isLastInLevel (vis ! k) \<longleftrightarrow> k + 1 = length vis)" if "k < length vis" for k
  proof -
    from that have k: "k < length idx" by (simp add: vis)
    then have ne: "idx \<noteq> []" and bound: "idx ! k < length its"
      using idx_mem [of "idx ! k"] by auto
    have e0: "idx ! k = idx ! 0 \<longleftrightarrow> k = 0"
      using dist k ne by (simp add: nth_eq_iff_index_eq)
    have e1: "idx ! k = idx ! (length idx - 1) \<longleftrightarrow> k + 1 = length idx"
    proof -
      have "idx ! k = idx ! (length idx - 1) \<longleftrightarrow> k = length idx - 1"
        using dist k ne by (simp add: nth_eq_iff_index_eq)
      also have "\<dots> \<longleftrightarrow> k + 1 = length idx" using k by arith
      finally show ?thesis .
    qed
    have at: "vis ! k = its' ! (idx ! k)" and lv: "length vis = length idx"
      using k by (simp_all add: vis)
    have "isFirstInLevel (vis ! k) \<longleftrightarrow> k = 0"
      unfolding at using fst_flag [OF bound] ne e0 by simp
    moreover have "isLastInLevel (vis ! k) \<longleftrightarrow> k + 1 = length vis"
      unfolding at lv using lst_flag [OF bound] ne e1 by simp
    ultimately show ?thesis by simp
  qed
  have kids: "children (its' ! i) = Some (fst (drawSubDirectory sh store cs))"
    if "i < length its" "sh \<or> \<not> hidden (its ! i)" "isExpanded store (fullpath (its ! i))"
      "children (its ! i) = Some cs" for i cs
    unfolding its'_def using that by (intro drawSubDirectory_children) (simp_all add: shown_def)
  have c1: "map uid its' = map uid its" and c2: "map hidden its' = map hidden its"
    using same by simp_all
  have c3: "\<not> sh \<longrightarrow> (\<forall>r \<in> set rows. \<not> hidden r)"
    using rows by blast
  have c4: "\<not> sh \<longrightarrow> (\<forall>x \<in> set its'. hidden x \<longrightarrow> \<not> isFirstInLevel x \<and> \<not> isLastInLevel x)"
    using hidden_flags by blast
  have c5: "\<forall>k < length vis. (isFirstInLevel (vis ! k) \<longleftrightarrow> k = 0)
                          \<and> (isLastInLevel (vis ! k) \<longleftrightarrow> k + 1 = length vis)"
    using vis_flags by blast
  have c6: "\<forall>i < length its. \<forall>cs.
          (sh \<or> \<not> hidden (its ! i)) \<and> isExpanded store (fullpath (its ! i))
          \<and> children (its ! i) = Some cs
          \<longrightarrow> children (its' ! i) = Some (fst (drawSubDirectory sh store cs))"
    using kids by blast
  show ?thesis by (intro conjI; fact)
qed

theorem drawSubDirectory_flags_witness:
  "map (\<lambda>x. (name x, isFirstInLevel x, isLastInLevel x))
       (fst (drawSubDirectory False (Map.empty(''/r/a'' \<mapsto> True)) example_siblings))
     = [(''.git'', False, False), (''a'', True, False), (''b.txt'', False, True), (''.z'', False, False)]
   \<and> map name (snd (drawSubDirectory False (Map.empty(''/r/a'' \<mapsto> True)) example_siblings))
     = [''a'', ''c.txt'', ''b.txt'']
   \<and> filter hidden (snd (drawSubDirectory False (Map.empty(''/r/a'' \<mapsto> True)) example_siblings)) = []"
proof -
  have a: "map (\<lambda>x. (name x, isFirstInLevel x, isLastInLevel x))
       (fst (drawSubDirectory False (Map.empty(''/r/a'' \<mapsto> True)) example_siblings))
     = [(''.git'', False, False), (''a'', True, False), (''b.txt'', False, True), (''.z'', False, False)]"
    by (simp add: drawSubDirectory.simps markLevel_def filteredIndexes_def Let_def
        example_siblings_def example_item_def isExpanded_def)
  have b: "map name (snd (drawSubDirectory False (Map.empty(''/r/a'' \<mapsto> True)) example_siblings))
     = [''a'', ''c.txt'', ''b.txt'']"
    by (simp add: drawSubDirectory.simps markLevel_def filteredIndexes_def Let_def
        example_siblings_def example_item_def isExpanded_def)
  have c: "filter hidden (snd (drawSubDirectory False (Map.empty(''/r/a'' \<mapsto> True)) example_siblings)) = []"
    using drawSubDirectory_flags [of False "Map.empty(''/r/a'' \<mapsto> True)" example_siblings]
    by (simp add: filter_empty_conv)
  from a b c show ?thesis by simp
qed

text \<open>
  The same for a whole \<open>draw\<close>: with hidden files not shown, no item row is one of a
  hidden item.
\<close>

lemma draw_rows_not_hidden:
  assumes "\<not> showHiddenFiles s" and "ItemRow r \<in> set (snd (draw s))"
  shows "\<not> hidden r"
proof (cases "isExpanded (expandStore s) (root s)")
  case True
  with assms(2) have "r \<in> set (snd (drawSubDirectory (showHiddenFiles s) (expandStore s) (items s)))"
    by (auto simp: draw_def Let_def split: prod.splits)
  from drawSubDirectory_rows_shown [OF this] assms(1) show ?thesis
    by (simp add: shown_def)
next
  case False
  with assms(2) show ?thesis by (simp add: draw_def Let_def)
qed

subsection \<open>The clipboard of part_000\<close>

lemma set_addNodes: "set (addNodes nodes marked) = set marked \<union> set nodes"
  unfolding addNodes_def by (induction nodes arbitrary: marked) (auto simp: set_add_def)

lemma distinct_addNodes: "distinct marked \<Longrightarrow> distinct (addNodes nodes marked)"
  unfolding addNodes_def by (induction nodes arbitrary: marked) (auto simp: set_add_def)

lemma cutFile_keeps_copied:
  "copyOrCutFileType args \<noteq> ''replace'' \<Longrightarrow>
     copiedNodes (cutFile nodes args file) = copiedNodes file"
  by (simp add: cutFile_def Let_def requestRenderNodes_def)

text \<open>
  Claim C2. After \<open>copyFile\<close> of \<open>S\<close> with \<open>replace\<close> the cut set is empty and the copy set
  holds exactly the nodes of \<open>S\<close> (once each). A \<open>cutFile\<close> of a node of the copy set with
  \<open>toggle\<close> leaves the node in the copy set; more generally a \<open>cutFile\<close> of any type other
  than \<open>replace\<close> (so \<open>toggle\<close>, the default, and \<open>append\<close>) leaves the copy set as it is.
\<close>

theorem copy_replace_then_cut_toggle:
  "cutNodes (copyFile S [''replace''] file) = []
   \<and> set (copiedNodes (copyFile S [''replace''] file)) = set S
   \<and> distinct (copiedNodes (copyFile S [''replace''] file))
   \<and> (\<forall>n \<in> set (copiedNodes file). n \<in> set (copiedNodes (cutFile [n] [''toggle''] file)))
   \<and> (\<forall>nodes args. copyOrCutFileType args \<noteq> ''replace''
         \<longrightarrow> copiedNodes (cutFile nodes args file) = copiedNodes file)"
proof -
  have a: "cutNodes (copyFile S [''replace''] file) = []"
    and b: "copiedNodes (copyFile S [''replace''] file) = addNodes S []"
    by (simp_all add: copyFile_def copyOrCutFileType_def Let_def requestRenderNodes_def)
  have c: "copiedNodes (cutFile [n] [''toggle''] file) = copiedNodes file" for n
    by (rule cutFile_keeps_copied) (simp add: copyOrCutFileType_def)
  from a b c show ?thesis
    by (simp add: set_addNodes distinct_addNodes cutFile_keeps_copied)
qed

theorem copy_replace_then_cut_toggle_witness:
  "cutNodes (copyFile [''a'', ''b''] [''replace''] example_owner) = []
   \<and> set (copiedNodes (copyFile [''a'', ''b''] [''replace''] example_owner)) = {''a'', ''b''}
   \<and> ''a'' \<in> set (copiedNodes
        (cutFile [''a''] [''toggle''] (copyFile [''a'', ''b''] [''replace''] example_owner)))
   \<and> cutNodes (cutFile [''a''] [''toggle''] (copyFile [''a'', ''b''] [''replace''] example_owner))
       = [''a'']"
proof -
  have cut: "cutNodes (cutFile [''a''] [''toggle''] (copyFile [''a'', ''b''] [''replace''] example_owner))
       = [''a'']"
    by (simp add: cutFile_def copyFile_def copyOrCutFileType_def Let_def requestRenderNodes_def
        toggleNodes_def addNodes_def set_has_def set_add_def set_delete_def example_owner_def)
  note r = copy_replace_then_cut_toggle [of "[''a'', ''b'']" example_owner]
  note t = copy_replace_then_cut_toggle
    [of "[]" "copyFile [''a'', ''b''] [''replace''] example_owner",
      THEN conjunct2, THEN conjunct2, THEN conjunct2, THEN conjunct1, rule_format, of "''a''"]
  from r t cut show ?thesis by auto
qed

subsection \<open>Paste in part_000\<close>

lemma pasteFileType_default: "pasteFileType [] = ''keepCopy''"
  by (simp add: pasteFileType_def)

text \<open>
  What \<open>pasteFile\<close> leaves in the clipboard when no collaborator throws and something is
  marked: the cut set is empty, and the copy set is emptied for the type \<open>clear\<close> and kept
  for every other type.
\<close>

lemma pasteFile_part000_clipboard:
  assumes "\<And>e. throws col e = None" and "copiedNodes file \<noteq> [] \<or> cutNodes file \<noteq> []"
  shows "snd (pasteFile_part000 col node args file) = Inr ()
    \<and> cutNodes (fst (pasteFile_part000 col node args file)) = []
    \<and> copiedNodes (fst (pasteFile_part000 col node args file))
        = (if pasteFileType args = ''clear'' then [] else copiedNodes file)"
  using assms
  by (auto simp: pasteFile_part000_def Let_def and_then_def awaited_def requestRenderNodes_def)

text \<open>
  Claim C3, evaluated on the code. With \<open>/src/x.txt\<close> in the copy set and \<open>/src/y.txt\<close> in
  the cut set, \<open>pasteFile\<close> without a type argument hands both to \<open>overwritePrompt\<close> (the
  first with \<open>fsCopyFileRecursive\<close>, the second with \<open>fsRename\<close>) and empties the cut set,
  but keeps the copy set: the type defaults to \<open>keepCopy\<close>. The copy set is emptied when
  \<open>clear\<close> is given.
\<close>

theorem pasteFile_part000_default_keeps_copy:
  "pasteFileType [] = ''keepCopy''
   \<and> pasteFile_part000 example_collaborators ''/r/b'' [] example_owner =
       (\<lparr>copiedNodes = [''/src/x.txt''], cutNodes = [],
         effects =
           [OverwritePrompt ''paste'' [(Some ''/src/x.txt'', ''/r/x.txt'')] FsCopyFileRecursive,
            RequestRenderNodes [''/src/x.txt''],
            OverwritePrompt ''paste'' [(Some ''/src/y.txt'', ''/r/y.txt'')] FsRenameFn,
            Load]\<rparr>, Inr ())
   \<and> copiedNodes (fst (pasteFile_part000 example_collaborators ''/r/b'' [''clear''] example_owner)) = []"
  by (simp add: pasteFile_part000_def pasteFileType_def pastePairs_def Let_def and_then_def
      awaited_def requestRenderNodes_def example_collaborators_def example_owner_def)

subsection \<open>Debounce\<close>


text \<open>
  Claim C5. With delay 200 and calls at times 0, 100 and 150, whatever \<open>fn\<close> and the
  arguments: \<open>fn\<close> is called once, at time 350, with the arguments of the third call; the
  promise of the first call is resolved with \<open>undefined\<close> at time 100 and that of the second
  at time 150, neither is rejected; the promise of the third call is settled at time 350
  with the outcome of \<open>fn\<close>.
\<close>

theorem debounce_coalesces:
  "\<exists>d. run_calls 200 fn [(0, a0), (100, a1), (150, a2)] debounce = Inr d
     \<and> executed d = [(350, a2)]
     \<and> settled d =
         [(0, 100, Resolved None),
          (1, 150, Resolved None),
          (2, 350, case fn a2 of Inr r \<Rightarrow> Resolved (Some r) | Inl e \<Rightarrow> Rejected e)]
     \<and> timeouts d = []"
  by (cases "fn a2")
    (simp_all add: debounce_def call_debounced_def advance_def fire_def settle_def
      clearTimeout_def Let_def)

end
